theory Spec2Isabelle
  imports Complex_Main
begin

chapter \<open>MediSupply event pipeline: detector, order aggregator, batch aggregator\<close>

text \<open>
  The development follows the Go sources. Conventions used throughout:
  \<^item> a Go \<open>struct\<close> is a record; field names carry a short prefix where two structs
    share a field name;
  \<^item> Go's \<open>error\<close> results are sums (\<open>Inl\<close> the error) or \<open>error option\<close> for
    functions that return only an error (\<open>None\<close> is \<open>nil\<close>);
  \<^item> \<open>time.Time\<close> is a natural number (an instant); the instant read by
    \<open>time.Now()\<close> is a parameter \<open>now\<close> of the function that reads the clock;
  \<^item> \<open>float64\<close> values that come out of a JSON document are finite, so their
    comparisons are the comparisons of the reals they denote; they are of type \<open>real\<close>;
  \<^item> calls to \<open>log.Printf\<close> have no effect on any value and are left out.
\<close>

section \<open>Damage detector (services/mqtt-order-event-client)\<close>

subsection \<open>Data\<close>

text \<open>\<open>main.go\<close>: \<open>Event\<close> with its \<open>EventData\<close> inlined.\<close>

record Event =
  ev_ID :: string
  ev_Timestamp :: nat
  ev_Type :: string
  ev_Source :: string
  ev_Temperature :: real
  ev_Humidity :: real
  ev_Status :: string

text \<open>\<open>publisher/OrderPublisher.go\<close>: \<open>OrderDamageEvent\<close> with its \<open>DamageDetails\<close>.\<close>

record SensorDamageEvent =
  sd_EventID :: string
  sd_Type :: string
  sd_Source :: string
  sd_OccurredAt :: nat
  sd_OrderID :: string
  sd_Severity :: string
  sd_Description :: string
  sd_Temperature :: real
  sd_Humidity :: real
  sd_Status :: string
  sd_MqttTopic :: string

text \<open>
  The two publishers of package \<open>publisher\<close>: \<open>MqttPublisher\<close> writes to an MQTT topic,
  \<open>Publisher\<close> writes to a topic of the log broker through a Kafka writer. A publish
  attempt records the sink, the deadline of the context handed to the publisher (in
  seconds) and the event.
\<close>

datatype sink = MqttSink string | LogBrokerSink string

record publish_attempt =
  att_sink :: sink
  att_timeout :: nat
  att_event :: SensorDamageEvent

record EventStore =
  es_events :: "Event list"
  es_maxSize :: nat

subsection \<open>Operations\<close>

text \<open>\<open>var minTemperature float64 = 10.0\<close>\<close>

definition minTemperature :: real where
  "minTemperature = 10"

definition deriveSeverity :: "real \<Rightarrow> real \<Rightarrow> string" where
  "deriveSeverity temperature humidity =
     (let severity = ''minor'';
          severity = (if temperature \<ge> 30 \<or> humidity \<ge> 80 then ''major'' else severity);
          severity = (if temperature \<ge> 40 \<or> humidity \<ge> 90 then ''critical'' else severity)
      in severity)"

text \<open>
  The event both publishers build. \<open>sprintf\<close> stands for
  \<open>fmt.Sprintf("Potential damage detected: temp=%.2fC, humidity=%.2f%%", ...)\<close>.
\<close>

definition buildDamageEvent ::
  "(real \<Rightarrow> real \<Rightarrow> string) \<Rightarrow> nat \<Rightarrow> string \<Rightarrow> string \<Rightarrow> real \<Rightarrow> real \<Rightarrow> string \<Rightarrow> string
   \<Rightarrow> SensorDamageEvent" where
  "buildDamageEvent sprintf now sensorID source temperature humidity status mqttTopic =
     \<lparr>sd_EventID = sensorID, sd_Type = ''order.damage'', sd_Source = source,
      sd_OccurredAt = now, sd_OrderID = sensorID,
      sd_Severity = deriveSeverity temperature humidity,
      sd_Description = sprintf temperature humidity,
      sd_Temperature = temperature, sd_Humidity = humidity, sd_Status = status,
      sd_MqttTopic = mqttTopic\<rparr>"

text \<open>
  \<open>(*MqttPublisher).PublishOrderDamageFromSensor\<close>; the receiver is \<open>None\<close> when it is
  \<open>nil\<close> (the connection at start-up failed), otherwise it is the publisher's topic.
  The result is the list of publish attempts made (the error it returns is only logged by
  the caller).
\<close>

definition mqtt_PublishOrderDamageFromSensor ::
  "string option \<Rightarrow> nat \<Rightarrow> (real \<Rightarrow> real \<Rightarrow> string) \<Rightarrow> nat \<Rightarrow> string \<Rightarrow> string \<Rightarrow> real \<Rightarrow> real
   \<Rightarrow> string \<Rightarrow> string \<Rightarrow> publish_attempt list" where
  "mqtt_PublishOrderDamageFromSensor p ctx sprintf now sensorID source temperature humidity status mqttTopic =
     (case p of
        None \<Rightarrow> []
      | Some topic \<Rightarrow>
          [\<lparr>att_sink = MqttSink topic, att_timeout = ctx,
            att_event = buildDamageEvent sprintf now sensorID source temperature humidity status mqttTopic\<rparr>])"

text \<open>\<open>(*Publisher).PublishOrderDamageFromSensor\<close>, the Kafka writer of the same package.\<close>

definition kafka_PublishOrderDamageFromSensor ::
  "string option \<Rightarrow> nat \<Rightarrow> (real \<Rightarrow> real \<Rightarrow> string) \<Rightarrow> nat \<Rightarrow> string \<Rightarrow> string \<Rightarrow> real \<Rightarrow> real
   \<Rightarrow> string \<Rightarrow> string \<Rightarrow> publish_attempt list" where
  "kafka_PublishOrderDamageFromSensor p ctx sprintf now sensorID source temperature humidity status mqttTopic =
     (case p of
        None \<Rightarrow> []
      | Some topic \<Rightarrow>
          [\<lparr>att_sink = LogBrokerSink topic, att_timeout = ctx,
            att_event = buildDamageEvent sprintf now sensorID source temperature humidity status mqttTopic\<rparr>])"

definition AddEvent :: "EventStore \<Rightarrow> Event \<Rightarrow> EventStore" where
  "AddEvent es event =
     (let evs = es_events es @ [event]
      in es\<lparr>es_events := (if length evs > es_maxSize es then drop (length evs - es_maxSize es) evs else evs)\<rparr>)"

text \<open>
  \<open>messageHandler\<close>. \<open>parsed\<close> is the result of \<open>json.Unmarshal\<close> on the payload
  (\<open>None\<close> when it fails), \<open>msgTopic\<close> is \<open>msg.Topic()\<close>, \<open>orderPublisher\<close> the package
  variable of type \<open>*publisher.MqttPublisher\<close>, \<open>minTemp\<close> the package variable
  \<open>minTemperature\<close>. The context is created with a deadline of 5 seconds.
\<close>

definition messageHandler ::
  "string option \<Rightarrow> real \<Rightarrow> (real \<Rightarrow> real \<Rightarrow> string) \<Rightarrow> nat \<Rightarrow> string \<Rightarrow> Event option \<Rightarrow> EventStore
   \<Rightarrow> EventStore \<times> publish_attempt list" where
  "messageHandler orderPublisher minTemp sprintf now msgTopic parsed eventStore =
     (case parsed of
        None \<Rightarrow> (eventStore, [])
      | Some event \<Rightarrow>
          (AddEvent eventStore event,
           if ev_Temperature event < minTemp
           then mqtt_PublishOrderDamageFromSensor orderPublisher 5 sprintf now (ev_ID event)
                  ''mqtt-order-event-client'' (ev_Temperature event) (ev_Humidity event)
                  (ev_Status event) msgTopic
           else []))"

text \<open>A reading used in the examples: 5 degrees, 50 percent humidity.\<close>

definition cold_reading :: Event where
  "cold_reading = \<lparr>ev_ID = ''evt_1'', ev_Timestamp = 0, ev_Type = ''sensor_reading'',
     ev_Source = ''sensor_01'', ev_Temperature = 5, ev_Humidity = 50, ev_Status = ''active''\<rparr>"

definition empty_store :: EventStore where
  "empty_store = \<lparr>es_events = [], es_maxSize = 1000\<rparr>"

definition is_log_broker :: "sink \<Rightarrow> bool" where
  "is_log_broker s = (case s of LogBrokerSink _ \<Rightarrow> True | MqttSink _ \<Rightarrow> False)"

definition is_mqtt :: "sink \<Rightarrow> bool" where
  "is_mqtt s = (case s of MqttSink _ \<Rightarrow> True | LogBrokerSink _ \<Rightarrow> False)"

section \<open>Batch aggregate (warehouse batch service, package domain)\<close>

text \<open>
  Errors are the text \<open>err.Error()\<close> returns; \<open>fmt.Errorf("...: %w", err)\<close> is the
  prefix followed by the wrapped error's text.
\<close>

type_synonym error = string

subsection \<open>Data\<close>

text \<open>\<open>BatchStatus\<close> is a Go string type with five named constants.\<close>

definition BatchStatusPending :: string where "BatchStatusPending = ''pending''"
definition BatchStatusProcessing :: string where "BatchStatusProcessing = ''processing''"
definition BatchStatusCompleted :: string where "BatchStatusCompleted = ''completed''"
definition BatchStatusCancelled :: string where "BatchStatusCancelled = ''cancelled''"
definition BatchStatusDamaged :: string where "BatchStatusDamaged = ''damaged''"

record BatchItem =
  it_OrderID :: string
  it_ProductID :: string
  it_Quantity :: int
  it_Status :: string
  it_AddedAt :: nat
  it_ProcessedAt :: "nat option"

record Batch =
  ID :: string
  ProductID :: string
  Status :: string
  Items :: "BatchItem list"
  TotalItems :: int
  CreatedAt :: nat
  UpdatedAt :: nat
  ProcessedAt :: "nat option"

subsection \<open>Methods of \<open>Batch\<close>\<close>

text \<open>
  A method with a pointer receiver that returns \<open>error\<close> becomes a function to
  \<open>error + Batch\<close>: \<open>Inl\<close> is the error (the receiver is then unchanged, no method
  writes a field before it returns an error), \<open>Inr\<close> is the receiver after the call.
\<close>

definition NewBatch :: "string \<Rightarrow> string \<Rightarrow> nat \<Rightarrow> Batch" where
  "NewBatch batchID productID now =
     \<lparr>ID = batchID, ProductID = productID, Status = BatchStatusPending, Items = [],
      TotalItems = 0, CreatedAt = now, UpdatedAt = now, ProcessedAt = None\<rparr>"

text \<open>
  The loop \<open>for i, item := range b.Items\<close> that rewrites the first item of the given
  order and returns; \<open>None\<close> when the loop ends without a match.
\<close>

fun update_first :: "string \<Rightarrow> (BatchItem \<Rightarrow> BatchItem) \<Rightarrow> BatchItem list \<Rightarrow> BatchItem list option" where
  "update_first orderID f [] = None"
| "update_first orderID f (item # rest) =
     (if it_OrderID item = orderID then Some (f item # rest)
      else map_option ((#) item) (update_first orderID f rest))"

text \<open>The loop of \<open>RemoveItem\<close>: \<open>append(b.Items[:i], b.Items[i+1:]...)\<close> at the first match.\<close>

fun remove_first :: "string \<Rightarrow> BatchItem list \<Rightarrow> BatchItem list option" where
  "remove_first orderID [] = None"
| "remove_first orderID (item # rest) =
     (if it_OrderID item = orderID then Some rest
      else map_option ((#) item) (remove_first orderID rest))"

definition AddItem :: "Batch \<Rightarrow> string \<Rightarrow> string \<Rightarrow> int \<Rightarrow> string \<Rightarrow> nat \<Rightarrow> error + Batch" where
  "AddItem b orderID productID quantity status now =
     (if ProductID b \<noteq> productID
      then Inl (''product ID mismatch: batch is for '' @ ProductID b @ '', item is for '' @ productID)
      else if Status b = BatchStatusCompleted \<or> Status b = BatchStatusCancelled
      then Inl (''cannot add items to batch with status '' @ Status b)
      else
        (case update_first orderID
                (\<lambda>item. item\<lparr>it_Quantity := quantity, it_Status := status, it_AddedAt := now\<rparr>)
                (Items b) of
           Some items \<Rightarrow> Inr (b\<lparr>Items := items, UpdatedAt := now\<rparr>)
         | None \<Rightarrow>
             (let item = \<lparr>it_OrderID = orderID, it_ProductID = productID, it_Quantity = quantity,
                          it_Status = status, it_AddedAt = now, it_ProcessedAt = None\<rparr>;
                  items = Items b @ [item]
              in Inr (b\<lparr>Items := items, TotalItems := int (length items), UpdatedAt := now\<rparr>))))"

definition RemoveItem :: "Batch \<Rightarrow> string \<Rightarrow> nat \<Rightarrow> error + Batch" where
  "RemoveItem b orderID now =
     (if Status b = BatchStatusCompleted
      then Inl ''cannot remove items from completed batch''
      else
        (case remove_first orderID (Items b) of
           Some items \<Rightarrow> Inr (b\<lparr>Items := items, TotalItems := int (length items), UpdatedAt := now\<rparr>)
         | None \<Rightarrow> Inl (''order '' @ orderID @ '' not found in batch'')))"

definition UpdateItemStatus :: "Batch \<Rightarrow> string \<Rightarrow> string \<Rightarrow> nat \<Rightarrow> error + Batch" where
  "UpdateItemStatus b orderID status now =
     (case update_first orderID
             (\<lambda>item. if status = ''processed'' \<or> status = ''shipped'' \<or> status = ''delivered''
                      then item\<lparr>it_Status := status, it_ProcessedAt := Some now\<rparr>
                      else item\<lparr>it_Status := status\<rparr>)
             (Items b) of
        Some items \<Rightarrow> Inr (b\<lparr>Items := items, UpdatedAt := now\<rparr>)
      | None \<Rightarrow> Inl (''order '' @ orderID @ '' not found in batch''))"

definition StartProcessing :: "Batch \<Rightarrow> nat \<Rightarrow> error + Batch" where
  "StartProcessing b now =
     (if Status b \<noteq> BatchStatusPending
      then Inl (''cannot start processing batch with status '' @ Status b)
      else Inr (b\<lparr>Status := BatchStatusProcessing, UpdatedAt := now\<rparr>))"

definition Complete :: "Batch \<Rightarrow> nat \<Rightarrow> error + Batch" where
  "Complete b now =
     (if Status b \<noteq> BatchStatusProcessing
      then Inl (''cannot complete batch with status '' @ Status b)
      else Inr (b\<lparr>Status := BatchStatusCompleted, ProcessedAt := Some now, UpdatedAt := now\<rparr>))"

definition Cancel :: "Batch \<Rightarrow> nat \<Rightarrow> error + Batch" where
  "Cancel b now =
     (if Status b = BatchStatusCompleted
      then Inl ''cannot cancel completed batch''
      else Inr (b\<lparr>Status := BatchStatusCancelled, UpdatedAt := now\<rparr>))"

definition MarkAsDamaged :: "Batch \<Rightarrow> nat \<Rightarrow> error + Batch" where
  "MarkAsDamaged b now = Inr (b\<lparr>Status := BatchStatusDamaged, UpdatedAt := now\<rparr>)"

definition GetItemByOrderID :: "Batch \<Rightarrow> string \<Rightarrow> error + BatchItem" where
  "GetItemByOrderID b orderID =
     (case find (\<lambda>item. it_OrderID item = orderID) (Items b) of
        Some item \<Rightarrow> Inr item
      | None \<Rightarrow> Inl (''order '' @ orderID @ '' not found in batch''))"

definition HasOrder :: "Batch \<Rightarrow> string \<Rightarrow> bool" where
  "HasOrder b orderID = (case GetItemByOrderID b orderID of Inr _ \<Rightarrow> True | Inl _ \<Rightarrow> False)"

definition IsEmpty :: "Batch \<Rightarrow> bool" where
  "IsEmpty b = (length (Items b) = 0)"

subsection \<open>Batch events (package domain)\<close>

definition BatchEventCreated :: string where "BatchEventCreated = ''batch.created''"
definition BatchEventItemAdded :: string where "BatchEventItemAdded = ''batch.item_added''"
definition BatchEventItemRemoved :: string where "BatchEventItemRemoved = ''batch.item_removed''"
definition BatchEventItemUpdated :: string where "BatchEventItemUpdated = ''batch.item_updated''"
definition BatchEventProcessing :: string where "BatchEventProcessing = ''batch.processing_started''"
definition BatchEventCompleted :: string where "BatchEventCompleted = ''batch.completed''"
definition BatchEventCancelled :: string where "BatchEventCancelled = ''batch.cancelled''"
definition BatchEventDamaged :: string where "BatchEventDamaged = ''batch.marked_damaged''"

record BatchEvent =
  be_EventType :: string
  be_BatchID :: string
  be_ProductID :: string
  be_Batch :: Batch
  be_OrderID :: "string option"
  be_ItemDetails :: "BatchItem option"
  be_Timestamp :: nat

text \<open>The constructors \<open>NewBatch...Event\<close>: one for events of a batch, one for events of an item.\<close>

definition batch_event :: "string \<Rightarrow> Batch \<Rightarrow> nat \<Rightarrow> BatchEvent" where
  "batch_event eventType batch now =
     \<lparr>be_EventType = eventType, be_BatchID = ID batch, be_ProductID = ProductID batch,
      be_Batch = batch, be_OrderID = None, be_ItemDetails = None, be_Timestamp = now\<rparr>"

definition NewBatchCreatedEvent :: "Batch \<Rightarrow> nat \<Rightarrow> BatchEvent" where
  "NewBatchCreatedEvent batch now = batch_event BatchEventCreated batch now"

definition NewBatchItemAddedEvent :: "Batch \<Rightarrow> string \<Rightarrow> BatchItem \<Rightarrow> nat \<Rightarrow> BatchEvent" where
  "NewBatchItemAddedEvent batch orderID item now =
     (batch_event BatchEventItemAdded batch now)\<lparr>be_OrderID := Some orderID, be_ItemDetails := Some item\<rparr>"

definition NewBatchItemRemovedEvent :: "Batch \<Rightarrow> string \<Rightarrow> nat \<Rightarrow> BatchEvent" where
  "NewBatchItemRemovedEvent batch orderID now =
     (batch_event BatchEventItemRemoved batch now)\<lparr>be_OrderID := Some orderID\<rparr>"

definition NewBatchItemUpdatedEvent :: "Batch \<Rightarrow> string \<Rightarrow> BatchItem \<Rightarrow> nat \<Rightarrow> BatchEvent" where
  "NewBatchItemUpdatedEvent batch orderID item now =
     (batch_event BatchEventItemUpdated batch now)\<lparr>be_OrderID := Some orderID, be_ItemDetails := Some item\<rparr>"

definition NewBatchProcessingStartedEvent :: "Batch \<Rightarrow> nat \<Rightarrow> BatchEvent" where
  "NewBatchProcessingStartedEvent batch now = batch_event BatchEventProcessing batch now"

definition NewBatchCompletedEvent :: "Batch \<Rightarrow> nat \<Rightarrow> BatchEvent" where
  "NewBatchCompletedEvent batch now = batch_event BatchEventCompleted batch now"

definition NewBatchCancelledEvent :: "Batch \<Rightarrow> nat \<Rightarrow> BatchEvent" where
  "NewBatchCancelledEvent batch now = batch_event BatchEventCancelled batch now"

definition NewBatchDamagedEvent :: "Batch \<Rightarrow> nat \<Rightarrow> BatchEvent" where
  "NewBatchDamagedEvent batch now = batch_event BatchEventDamaged batch now"

section \<open>In-memory batch repository (driven adapter)\<close>

text \<open>
  \<open>BatchMemoryRepository.batches\<close> is a Go map from batch id to batch. Every method
  copies the batch it stores or returns, so batches are values here. Go leaves the order
  in which \<open>range\<close> visits a map unspecified and changes it from one loop to the next:
  each function with such a loop takes the order \<open>ks\<close> in which this loop visits the
  keys. \<open>range_order ks r\<close> says that \<open>ks\<close> is such an order for the map \<open>r\<close>: every
  key once.
\<close>

type_synonym repo = "string \<rightharpoonup> Batch"

definition range_order :: "string list \<Rightarrow> repo \<Rightarrow> bool" where
  "range_order ks r = (distinct ks \<and> set ks = dom r)"

definition range_batches :: "string list \<Rightarrow> repo \<Rightarrow> Batch list" where
  "range_batches ks r = List.map_filter r ks"

text \<open>
  \<open>Save\<close> returns an error only for a \<open>nil\<close> pointer; a \<open>Batch\<close> value is never
  \<open>nil\<close>.
\<close>

definition Save :: "repo \<Rightarrow> Batch \<Rightarrow> error option \<times> repo" where
  "Save r batch = (None, r(ID batch \<mapsto> batch))"

definition FindByID :: "repo \<Rightarrow> string \<Rightarrow> error + Batch" where
  "FindByID r batchID =
     (case r batchID of
        None \<Rightarrow> Inl (''batch with ID '' @ batchID @ '' not found'')
      | Some batch \<Rightarrow> Inr batch)"

definition FindByOrderID :: "string list \<Rightarrow> repo \<Rightarrow> string \<Rightarrow> error + Batch" where
  "FindByOrderID ks r orderID =
     (case find (\<lambda>batch. HasOrder batch orderID) (range_batches ks r) of
        Some batch \<Rightarrow> Inr batch
      | None \<Rightarrow> Inl (''no batch found containing order '' @ orderID))"

definition FindPendingBatchForProduct :: "string list \<Rightarrow> repo \<Rightarrow> string \<Rightarrow> error + Batch" where
  "FindPendingBatchForProduct ks r productID =
     (case find (\<lambda>batch. ProductID batch = productID \<and> Status batch = BatchStatusPending)
             (range_batches ks r) of
        Some batch \<Rightarrow> Inr batch
      | None \<Rightarrow> Inl (''no pending batch found for product '' @ productID))"

definition Delete :: "repo \<Rightarrow> string \<Rightarrow> error option \<times> repo" where
  "Delete r batchID =
     (if r batchID = None then (Some (''batch with ID '' @ batchID @ '' not found''), r)
      else (None, r(batchID := None)))"

section \<open>Batch service (package application)\<close>

text \<open>
  The state of the service is the repository together with the record of the calls made
  to the event publisher: each event handed to \<open>PublishBatchEvent\<close> with the error the
  publisher returned. The publisher is an interface; \<open>pub n e\<close> is what it returns for
  the event \<open>e\<close> when \<open>n\<close> events were handed to it before. The service only logs that
  error.

  Every call reads the clock several times; \<open>now\<close> is given to all the reads of one
  call. \<open>stamp\<close> is \<open>time.Now().Format("20060102150405")\<close>, the clock to the second.
\<close>

record svc =
  repo :: repo
  outbox :: "(BatchEvent \<times> error option) list"

type_synonym publisher = "nat \<Rightarrow> BatchEvent \<Rightarrow> error option"

definition publish :: "publisher \<Rightarrow> BatchEvent \<Rightarrow> (BatchEvent \<times> error option) list
    \<Rightarrow> (BatchEvent \<times> error option) list" where
  "publish pub event out = out @ [(event, pub (length out) event)]"

definition generateBatchID :: "string \<Rightarrow> string \<Rightarrow> string" where
  "generateBatchID productID stamp = ''BATCH-'' @ productID @ ''-'' @ stamp"

definition AddOrderToBatch ::
  "publisher \<Rightarrow> string list \<Rightarrow> nat \<Rightarrow> string \<Rightarrow> string \<Rightarrow> string \<Rightarrow> int \<Rightarrow> string \<Rightarrow> svc
   \<Rightarrow> (error + Batch) \<times> svc" where
  "AddOrderToBatch pub ks now stamp orderID productID quantity status s =
     (let (batch, isNewBatch) =
            (case FindPendingBatchForProduct ks (repo s) productID of
               Inl err \<Rightarrow> (NewBatch (generateBatchID productID stamp) productID now, True)
             | Inr found \<Rightarrow> (found, False))
      in case AddItem batch orderID productID quantity status now of
           Inl err \<Rightarrow> (Inl (''failed to add order to batch: '' @ err), s)
         | Inr batch \<Rightarrow>
             (case Save (repo s) batch of
                (Some err, r) \<Rightarrow> (Inl (''failed to save batch: '' @ err), s\<lparr>repo := r\<rparr>)
              | (None, r) \<Rightarrow>
                  (let out = (if isNewBatch
                              then publish pub (NewBatchCreatedEvent batch now) (outbox s)
                              else outbox s);
                       out = (case GetItemByOrderID batch orderID of
                                Inl err \<Rightarrow> out
                              | Inr item \<Rightarrow> publish pub (NewBatchItemAddedEvent batch orderID item now) out)
                   in (Inr batch, \<lparr>repo = r, outbox = out\<rparr>))))"

definition RemoveOrderFromBatch ::
  "publisher \<Rightarrow> string list \<Rightarrow> nat \<Rightarrow> string \<Rightarrow> svc \<Rightarrow> error option \<times> svc" where
  "RemoveOrderFromBatch pub ks now orderID s =
     (case FindByOrderID ks (repo s) orderID of
        Inl err \<Rightarrow> (Some (''failed to find batch for order '' @ orderID @ '': '' @ err), s)
      | Inr batch \<Rightarrow>
          (case RemoveItem batch orderID now of
             Inl err \<Rightarrow> (Some (''failed to remove order from batch: '' @ err), s)
           | Inr batch \<Rightarrow>
               (let out = publish pub (NewBatchItemRemovedEvent batch orderID now) (outbox s)
                in if IsEmpty batch
                   then (case Delete (repo s) (ID batch) of
                           (Some err, r) \<Rightarrow>
                             (Some (''failed to delete empty batch: '' @ err), \<lparr>repo = r, outbox = out\<rparr>)
                         | (None, r) \<Rightarrow> (None, \<lparr>repo = r, outbox = out\<rparr>))
                   else (case Save (repo s) batch of
                           (Some err, r) \<Rightarrow>
                             (Some (''failed to save updated batch: '' @ err), \<lparr>repo = r, outbox = out\<rparr>)
                         | (None, r) \<Rightarrow> (None, \<lparr>repo = r, outbox = out\<rparr>)))))"

definition UpdateOrderStatus ::
  "publisher \<Rightarrow> string list \<Rightarrow> nat \<Rightarrow> string \<Rightarrow> string \<Rightarrow> svc \<Rightarrow> error option \<times> svc" where
  "UpdateOrderStatus pub ks now orderID status s =
     (case FindByOrderID ks (repo s) orderID of
        Inl err \<Rightarrow> (Some (''failed to find batch for order '' @ orderID @ '': '' @ err), s)
      | Inr batch \<Rightarrow>
          (case UpdateItemStatus batch orderID status now of
             Inl err \<Rightarrow> (Some (''failed to update order status: '' @ err), s)
           | Inr batch \<Rightarrow>
               (case Save (repo s) batch of
                  (Some err, r) \<Rightarrow> (Some (''failed to save updated batch: '' @ err), s\<lparr>repo := r\<rparr>)
                | (None, r) \<Rightarrow>
                    (let out = (case GetItemByOrderID batch orderID of
                                  Inl err \<Rightarrow> outbox s
                                | Inr item \<Rightarrow>
                                    publish pub (NewBatchItemUpdatedEvent batch orderID item now) (outbox s))
                     in (None, \<lparr>repo = r, outbox = out\<rparr>)))))"

text \<open>
  \<open>ProcessBatch\<close>, \<open>CompleteBatch\<close>, \<open>CancelBatch\<close> and \<open>MarkBatchAsDamaged\<close> differ in
  the method of \<open>Batch\<close> they call, in the event they publish and in the words of their
  errors.
\<close>

definition transition ::
  "(Batch \<Rightarrow> nat \<Rightarrow> error + Batch) \<Rightarrow> string \<Rightarrow> (Batch \<Rightarrow> nat \<Rightarrow> BatchEvent)
   \<Rightarrow> publisher \<Rightarrow> nat \<Rightarrow> string \<Rightarrow> svc \<Rightarrow> error option \<times> svc" where
  "transition method failed event pub now batchID s =
     (case FindByID (repo s) batchID of
        Inl err \<Rightarrow> (Some (''failed to find batch '' @ batchID @ '': '' @ err), s)
      | Inr batch \<Rightarrow>
          (case method batch now of
             Inl err \<Rightarrow> (Some (failed @ err), s)
           | Inr batch \<Rightarrow>
               (case Save (repo s) batch of
                  (Some err, r) \<Rightarrow> (Some (''failed to save batch: '' @ err), s\<lparr>repo := r\<rparr>)
                | (None, r) \<Rightarrow> (None, \<lparr>repo = r, outbox = publish pub (event batch now) (outbox s)\<rparr>))))"

definition ProcessBatch :: "publisher \<Rightarrow> nat \<Rightarrow> string \<Rightarrow> svc \<Rightarrow> error option \<times> svc" where
  "ProcessBatch = transition StartProcessing ''failed to start processing batch: ''
                    NewBatchProcessingStartedEvent"

definition CompleteBatch :: "publisher \<Rightarrow> nat \<Rightarrow> string \<Rightarrow> svc \<Rightarrow> error option \<times> svc" where
  "CompleteBatch = transition Complete ''failed to complete batch: '' NewBatchCompletedEvent"

definition CancelBatch :: "publisher \<Rightarrow> nat \<Rightarrow> string \<Rightarrow> svc \<Rightarrow> error option \<times> svc" where
  "CancelBatch = transition Cancel ''failed to cancel batch: '' NewBatchCancelledEvent"

definition MarkBatchAsDamaged :: "publisher \<Rightarrow> nat \<Rightarrow> string \<Rightarrow> svc \<Rightarrow> error option \<times> svc" where
  "MarkBatchAsDamaged = transition MarkAsDamaged ''failed to mark batch as damaged: ''
                          NewBatchDamagedEvent"

definition GetBatchByOrderID :: "string list \<Rightarrow> svc \<Rightarrow> string \<Rightarrow> error + Batch" where
  "GetBatchByOrderID ks s orderID = FindByOrderID ks (repo s) orderID"

section \<open>Order events in the batch service (domain/order.go, application/order_service.go)\<close>

text \<open>
  \<open>Order\<close> and \<open>OrderEvent\<close> are declared with the same fields in the order service and
  in the batch service; one record serves both.
\<close>

record Order =
  ord_ID :: string
  ord_CustomerID :: string
  ord_ProductID :: string
  ord_Quantity :: int
  ord_Status :: string
  ord_TotalAmount :: real
  ord_CreatedAt :: nat
  ord_UpdatedAt :: nat

record OrderEvent =
  oe_EventType :: string
  oe_OrderID :: string
  oe_Order :: Order
  oe_Timestamp :: nat

definition IsWarehouseRelevant :: "OrderEvent \<Rightarrow> bool" where
  "IsWarehouseRelevant oe =
     (case map_of
        [(''order.damage_processed'', True), (''order.created'', True),
         (''order.cancelled'', True), (''order.shipped'', True), (''order.delivered'', True),
         (''order.returned'', True), (''order.inventory_allocated'', True),
         (''order.inventory_released'', True)] (oe_EventType oe) of
        Some relevant \<Rightarrow> relevant
      | None \<Rightarrow> False)"

definition GetWarehouseAction :: "OrderEvent \<Rightarrow> string" where
  "GetWarehouseAction oe =
     (if oe_EventType oe = ''order.damage_processed'' then ''process_damage''
      else if oe_EventType oe = ''order.created'' then ''allocate_inventory''
      else if oe_EventType oe = ''order.cancelled'' then ''release_inventory''
      else if oe_EventType oe = ''order.shipped'' then ''update_inventory''
      else if oe_EventType oe = ''order.delivered'' then ''confirm_delivery''
      else if oe_EventType oe = ''order.returned'' then ''process_return''
      else if oe_EventType oe = ''order.inventory_allocated'' then ''confirm_allocation''
      else if oe_EventType oe = ''order.inventory_released'' then ''confirm_release''
      else ''unknown'')"

text \<open>
  The handlers of \<open>OrderService\<close>. A handler makes at most two loops over the repository's
  map: \<open>ks1\<close> is the order of the first, \<open>ks2\<close> the order of the second.
\<close>

text \<open>
  The three cases of \<open>processDamage\<close> that update the item and fall back to
  \<open>AddOrderToBatch\<close> share their first step; it returns the batch \<open>AddOrderToBatch\<close> gave
  when the fallback ran.
\<close>

definition update_or_add ::
  "publisher \<Rightarrow> string list \<Rightarrow> string list \<Rightarrow> nat \<Rightarrow> string \<Rightarrow> OrderEvent \<Rightarrow> string \<Rightarrow> svc
   \<Rightarrow> (error + Batch option) \<times> svc" where
  "update_or_add pub ks1 ks2 now stamp event status s =
     (case UpdateOrderStatus pub ks1 now (oe_OrderID event) status s of
        (None, s) \<Rightarrow> (Inr None, s)
      | (Some err, s) \<Rightarrow>
          (case AddOrderToBatch pub ks2 now stamp (oe_OrderID event) (ord_ProductID (oe_Order event))
                  (ord_Quantity (oe_Order event)) status s of
             (Inl err, s) \<Rightarrow> (Inl err, s)
           | (Inr batch, s) \<Rightarrow> (Inr (Some batch), s)))"

definition processDamage ::
  "publisher \<Rightarrow> string list \<Rightarrow> string list \<Rightarrow> nat \<Rightarrow> string \<Rightarrow> OrderEvent \<Rightarrow> svc
   \<Rightarrow> error option \<times> svc" where
  "processDamage pub ks1 ks2 now stamp event s =
     (if ord_Status (oe_Order event) = ''damage_detected_minor'' then
        (case update_or_add pub ks1 ks2 now stamp event ''damage_minor'' s of
           (Inl err, s) \<Rightarrow> (Some err, s)
         | (Inr _, s) \<Rightarrow> (None, s))
      else if ord_Status (oe_Order event) = ''damage_detected_major'' then
        (case update_or_add pub ks1 ks2 now stamp event ''damage_major'' s of
           (Inl err, s) \<Rightarrow> (Some err, s)
         | (Inr (Some batch), s) \<Rightarrow> (None, snd (MarkBatchAsDamaged pub now (ID batch) s))
         | (Inr None, s) \<Rightarrow>
             (case GetBatchByOrderID ks2 s (oe_OrderID event) of
                Inr batch \<Rightarrow> (None, snd (MarkBatchAsDamaged pub now (ID batch) s))
              | Inl err \<Rightarrow> (None, s)))
      else if ord_Status (oe_Order event) = ''damage_processed'' then
        (case update_or_add pub ks1 ks2 now stamp event ''damage_processed'' s of
           (Inl err, s) \<Rightarrow> (Some err, s)
         | (Inr _, s) \<Rightarrow> (None, s))
      else (None, s))"

definition allocateInventory ::
  "publisher \<Rightarrow> string list \<Rightarrow> nat \<Rightarrow> string \<Rightarrow> OrderEvent \<Rightarrow> svc \<Rightarrow> error option \<times> svc" where
  "allocateInventory pub ks1 now stamp event s =
     (case AddOrderToBatch pub ks1 now stamp (oe_OrderID event) (ord_ProductID (oe_Order event))
             (ord_Quantity (oe_Order event)) ''allocated'' s of
        (Inl err, s) \<Rightarrow> (Some err, s)
      | (Inr batch, s) \<Rightarrow> (None, s))"

definition releaseInventory ::
  "publisher \<Rightarrow> string list \<Rightarrow> nat \<Rightarrow> OrderEvent \<Rightarrow> svc \<Rightarrow> error option \<times> svc" where
  "releaseInventory pub ks1 now event s = RemoveOrderFromBatch pub ks1 now (oe_OrderID event) s"

text \<open>
  \<open>updateInventory\<close>, \<open>confirmDelivery\<close>, \<open>confirmAllocation\<close> and \<open>confirmRelease\<close> each
  call \<open>UpdateOrderStatus\<close> with their own status and return its error.
\<close>

definition updateInventory ::
  "publisher \<Rightarrow> string list \<Rightarrow> nat \<Rightarrow> OrderEvent \<Rightarrow> svc \<Rightarrow> error option \<times> svc" where
  "updateInventory pub ks1 now event s = UpdateOrderStatus pub ks1 now (oe_OrderID event) ''shipped'' s"

definition confirmDelivery ::
  "publisher \<Rightarrow> string list \<Rightarrow> nat \<Rightarrow> OrderEvent \<Rightarrow> svc \<Rightarrow> error option \<times> svc" where
  "confirmDelivery pub ks1 now event s = UpdateOrderStatus pub ks1 now (oe_OrderID event) ''delivered'' s"

definition confirmAllocation ::
  "publisher \<Rightarrow> string list \<Rightarrow> nat \<Rightarrow> OrderEvent \<Rightarrow> svc \<Rightarrow> error option \<times> svc" where
  "confirmAllocation pub ks1 now event s =
     UpdateOrderStatus pub ks1 now (oe_OrderID event) ''allocation_confirmed'' s"

definition confirmRelease ::
  "publisher \<Rightarrow> string list \<Rightarrow> nat \<Rightarrow> OrderEvent \<Rightarrow> svc \<Rightarrow> error option \<times> svc" where
  "confirmRelease pub ks1 now event s =
     UpdateOrderStatus pub ks1 now (oe_OrderID event) ''release_confirmed'' s"

definition processReturn ::
  "publisher \<Rightarrow> string list \<Rightarrow> string list \<Rightarrow> nat \<Rightarrow> string \<Rightarrow> OrderEvent \<Rightarrow> svc
   \<Rightarrow> error option \<times> svc" where
  "processReturn pub ks1 ks2 now stamp event s =
     (case UpdateOrderStatus pub ks1 now (oe_OrderID event) ''returned'' s of
        (Some err, s) \<Rightarrow> (Some err, s)
      | (None, s) \<Rightarrow>
          (case AddOrderToBatch pub ks2 now stamp (oe_OrderID event @ ''-return'')
                  (ord_ProductID (oe_Order event)) (ord_Quantity (oe_Order event)) ''returned'' s of
             (Inl err, s) \<Rightarrow> (Some err, s)
           | (Inr batch, s) \<Rightarrow> (None, s)))"

definition HandleOrderEvent ::
  "publisher \<Rightarrow> string list \<Rightarrow> string list \<Rightarrow> nat \<Rightarrow> string \<Rightarrow> OrderEvent \<Rightarrow> svc
   \<Rightarrow> error option \<times> svc" where
  "HandleOrderEvent pub ks1 ks2 now stamp event s =
     (if \<not> IsWarehouseRelevant event then (None, s)
      else
        (let action = GetWarehouseAction event
         in if action = ''process_damage'' then processDamage pub ks1 ks2 now stamp event s
            else if action = ''allocate_inventory'' then allocateInventory pub ks1 now stamp event s
            else if action = ''release_inventory'' then releaseInventory pub ks1 now event s
            else if action = ''update_inventory'' then updateInventory pub ks1 now event s
            else if action = ''confirm_delivery'' then confirmDelivery pub ks1 now event s
            else if action = ''process_return'' then processReturn pub ks1 ks2 now stamp event s
            else if action = ''confirm_allocation'' then confirmAllocation pub ks1 now event s
            else if action = ''confirm_release'' then confirmRelease pub ks1 now event s
            else (Some (''unknown warehouse action: '' @ action), s)))"

section \<open>Kafka publisher of batch events (driven adapter)\<close>

text \<open>
  A \<open>*kafka.Writer\<close> is a pointer. The writers made so far are kept in a heap, a list
  of writer objects, and a pointer is an index into it: \<open>&kafka.Writer{...}\<close> puts a new
  object at the end and gives its index. An object is the configuration it was made with
  and whether it has been closed.
\<close>

record Writer =
  w_Addr :: string
  w_Topic :: string
  w_Balancer :: string
  w_RequiredAcks :: string
  w_Async :: bool
  w_WriteTimeout :: nat
  w_ReadTimeout :: nat
  w_closed :: bool

type_synonym heap = "Writer list"

record BatchEventPublisherAdapter =
  pa_writer :: nat
  pa_topic :: string
  pa_brokerAddress :: string

record Message =
  msg_Key :: string
  msg_Value :: string
  msg_Headers :: "(string \<times> string) list"

text \<open>
  What the adapter does to the outside, in order: a write of a message through the writer
  a pointer refers to, under a deadline in seconds; the close of the writer a pointer
  refers to; the construction of a writer object, with the pointer it gets; a sleep in
  seconds.
\<close>

datatype action =
  WriteMessages nat nat Message
| CloseWriter nat
| MakeWriter nat Writer
| Sleep nat

text \<open>The composite literal \<open>kafka.Writer{...}\<close> of the constructor and of \<open>recreateWriter\<close>.\<close>

definition newWriter :: "string \<Rightarrow> string \<Rightarrow> Writer" where
  "newWriter address topicName =
     \<lparr>w_Addr = address, w_Topic = topicName, w_Balancer = ''LeastBytes'',
      w_RequiredAcks = ''RequireOne'', w_Async = False, w_WriteTimeout = 10, w_ReadTimeout = 10,
      w_closed = False\<rparr>"

text \<open>\<open>&w\<close>: the object is put on the heap and the pointer to it returned.\<close>

definition alloc :: "Writer \<Rightarrow> heap \<Rightarrow> nat \<times> heap" where
  "alloc w h = (length h, h @ [w])"

text \<open>\<open>(*kafka.Writer).Close\<close>: the object is closed; the adapter only logs the error.\<close>

definition writer_Close :: "nat \<Rightarrow> heap \<Rightarrow> heap" where
  "writer_Close ptr h = h[ptr := (h ! ptr)\<lparr>w_closed := True\<rparr>]"

definition NewBatchEventPublisherAdapter ::
  "string \<Rightarrow> string \<Rightarrow> heap \<Rightarrow> BatchEventPublisherAdapter \<times> heap" where
  "NewBatchEventPublisherAdapter address topicName h =
     (case alloc (newWriter address topicName) h of
        (writer, h) \<Rightarrow> (\<lparr>pa_writer = writer, pa_topic = topicName, pa_brokerAddress = address\<rparr>, h))"

definition recreateWriter :: "BatchEventPublisherAdapter \<Rightarrow> heap \<Rightarrow> BatchEventPublisherAdapter \<times> heap" where
  "recreateWriter p h =
     (case alloc (newWriter (pa_brokerAddress p) (pa_topic p)) h of
        (writer, h) \<Rightarrow> (p\<lparr>pa_writer := writer\<rparr>, h))"

text \<open>\<open>strings.Contains\<close>: the second string occurs in the first.\<close>

fun HasPrefix :: "string \<Rightarrow> string \<Rightarrow> bool" where
  "HasPrefix s [] = True"
| "HasPrefix [] (c # prefix) = False"
| "HasPrefix (d # s) (c # prefix) = (d = c \<and> HasPrefix s prefix)"

fun Contains :: "string \<Rightarrow> string \<Rightarrow> bool" where
  "Contains [] substr = (substr = [])"
| "Contains (c # s) substr = (HasPrefix (c # s) substr \<or> Contains s substr)"

text \<open>
  \<open>isUnknownTopicOrPartitionError\<close>; the argument is \<open>None\<close> for a \<open>nil\<close> error,
  otherwise the error's text. \<open>ToLower\<close> is \<open>strings.ToLower\<close> of Go's library, a
  parameter.
\<close>

definition isUnknownTopicOrPartitionError :: "(string \<Rightarrow> string) \<Rightarrow> error option \<Rightarrow> bool" where
  "isUnknownTopicOrPartitionError ToLower err =
     (case err of
        None \<Rightarrow> False
      | Some text \<Rightarrow>
          (let errStr = ToLower text
           in Contains errStr ''[3] unknown topic or partition'' \<or>
              Contains errStr ''unknowntopicorpartition'' \<or>
              Contains errStr ''unknown topic or partition'' \<or>
              Contains errStr ''topic or partition that does not exist''))"

text \<open>
  \<open>strings.ToLower\<close> on the letters A to Z, for the examples; every other character is
  kept.
\<close>

definition ascii_lower :: "char \<Rightarrow> char" where
  "ascii_lower c =
     (case map_of (zip ''ABCDEFGHIJKLMNOPQRSTUVWXYZ'' ''abcdefghijklmnopqrstuvwxyz'') c of
        Some l \<Rightarrow> l
      | None \<Rightarrow> c)"

definition ascii_ToLower :: "string \<Rightarrow> string" where
  "ascii_ToLower s = map ascii_lower s"

text \<open>
  \<open>PublishBatchEvent\<close>. Parameters from outside the adapter: \<open>marshal\<close> is
  \<open>json.Marshal\<close>, \<open>format_time\<close> is \<open>Timestamp.Format(time.RFC3339)\<close>, and \<open>broker\<close> is
  \<open>WriteMessages\<close> of the library with the broker behind it: \<open>broker n ptr w m\<close> is the
  error (\<open>None\<close> for \<open>nil\<close>) of the write number \<open>n\<close> of this call, of the message \<open>m\<close>
  through the writer at \<open>ptr\<close>, which is the object \<open>w\<close> at that moment. The result is
  the error returned, the adapter and the heap afterwards, and the actions in order.
\<close>

definition kafka_message :: "(nat \<Rightarrow> string) \<Rightarrow> string \<Rightarrow> BatchEvent \<Rightarrow> Message" where
  "kafka_message format_time eventData event =
     \<lparr>msg_Key = be_BatchID event, msg_Value = eventData,
      msg_Headers =
        [(''event_type'', be_EventType event), (''batch_id'', be_BatchID event),
         (''product_id'', be_ProductID event), (''timestamp'', format_time (be_Timestamp event))]
        @ (case be_OrderID event of Some orderID \<Rightarrow> [(''order_id'', orderID)] | None \<Rightarrow> [])\<rparr>"

definition PublishBatchEvent ::
  "(string \<Rightarrow> string) \<Rightarrow> (BatchEvent \<Rightarrow> error + string) \<Rightarrow> (nat \<Rightarrow> string)
   \<Rightarrow> (nat \<Rightarrow> nat \<Rightarrow> Writer \<Rightarrow> Message \<Rightarrow> error option)
   \<Rightarrow> BatchEventPublisherAdapter \<Rightarrow> heap \<Rightarrow> BatchEvent
   \<Rightarrow> error option \<times> BatchEventPublisherAdapter \<times> heap \<times> action list" where
  "PublishBatchEvent ToLower marshal format_time broker p h event =
     (case marshal event of
        Inl err \<Rightarrow> (Some (''failed to marshal batch event: '' @ err), p, h, [])
      | Inr eventData \<Rightarrow>
          (let message = kafka_message format_time eventData event
           in case broker 0 (pa_writer p) (h ! pa_writer p) message of
                None \<Rightarrow> (None, p, h, [WriteMessages (pa_writer p) 10 message])
              | Some err \<Rightarrow>
                  if isUnknownTopicOrPartitionError ToLower (Some err)
                  then
                    (let h1 = writer_Close (pa_writer p) h
                     in case recreateWriter p h1 of
                          (p', h2) \<Rightarrow>
                            (let steps = [WriteMessages (pa_writer p) 10 message,
                                          CloseWriter (pa_writer p),
                                          MakeWriter (pa_writer p') (h2 ! pa_writer p'), Sleep 2,
                                          WriteMessages (pa_writer p') 10 message]
                             in case broker 1 (pa_writer p') (h2 ! pa_writer p') message of
                                  Some retryErr \<Rightarrow>
                                    (Some (''failed to write batch event to Kafka after retry: ''
                                             @ retryErr), p', h2, steps)
                                | None \<Rightarrow> (None, p', h2, steps)))
                  else (Some (''failed to write batch event to Kafka: '' @ err), p, h,
                        [WriteMessages (pa_writer p) 10 message])))"

section \<open>Order aggregator (order management service)\<close>

subsection \<open>Data (package domain)\<close>

text \<open>\<open>OrderDamageEvent\<close> with its \<open>OrderDamageDetails\<close>, as the order service declares them.\<close>

record OrderDamageEvent =
  de_EventID :: string
  de_Type :: string
  de_Source :: string
  de_OccurredAt :: nat
  de_OrderID :: string
  de_Severity :: string
  de_Description :: string
  de_Temperature :: real
  de_Humidity :: int
  de_Status :: string
  de_MqttTopic :: string

record MQTTOrderEvent =
  mq_MqttTopic :: string
  mq_Payload :: string
  mq_Timestamp :: real

subsection \<open>In-memory order repository (driven adapter)\<close>

type_synonym order_repo = "string \<rightharpoonup> Order"

definition order_Save :: "order_repo \<Rightarrow> Order \<Rightarrow> error option \<times> order_repo" where
  "order_Save r order = (None, r(ord_ID order \<mapsto> order))"

definition order_FindByID :: "order_repo \<Rightarrow> string \<Rightarrow> error + Order" where
  "order_FindByID r orderID =
     (case r orderID of
        None \<Rightarrow> Inl (''order with ID '' @ orderID @ '' not found'')
      | Some order \<Rightarrow> Inr order)"

definition order_Update :: "order_repo \<Rightarrow> Order \<Rightarrow> error option \<times> order_repo" where
  "order_Update r order =
     (if r (ord_ID order) = None
      then (Some (''order with ID '' @ ord_ID order @ '' not found''), r)
      else (None, r(ord_ID order \<mapsto> order)))"

subsection \<open>Order service (package application)\<close>

text \<open>
  The state is the repository and the record of the calls to \<open>PublishOrderEvent\<close>, each
  with the error the publisher returned; \<open>pub\<close> is the publisher, as for the batch
  service.
\<close>

record order_svc =
  orders :: order_repo
  order_outbox :: "(OrderEvent \<times> error option) list"

type_synonym order_publisher = "nat \<Rightarrow> OrderEvent \<Rightarrow> error option"

definition PublishOrderEvent :: "order_publisher \<Rightarrow> OrderEvent \<Rightarrow> (OrderEvent \<times> error option) list
    \<Rightarrow> (OrderEvent \<times> error option) list" where
  "PublishOrderEvent pub event out = out @ [(event, pub (length out) event)]"

text \<open>
  The events that were published: those handed to the publisher for which it returned no
  error.
\<close>

definition published_order_events :: "order_svc \<Rightarrow> OrderEvent list" where
  "published_order_events s = map fst (filter (\<lambda>call. snd call = None) (order_outbox s))"

text \<open>\<open>HandleOrderEvent\<close> of the order service only logs.\<close>

definition order_HandleOrderEvent :: "OrderEvent \<Rightarrow> order_svc \<Rightarrow> error option \<times> order_svc" where
  "order_HandleOrderEvent event s = (None, s)"

text \<open>The \<open>switch event.Severity\<close> of \<open>HandleOrderDamageEvent\<close>.\<close>

definition damage_status :: "string \<Rightarrow> string" where
  "damage_status severity =
     (if severity = ''minor'' then ''damage_detected_minor''
      else if severity = ''major'' then ''damage_detected_major''
      else if severity = ''critical'' then ''cancelled_damage''
      else ''damage_detected_unknown'')"

definition HandleOrderDamageEvent ::
  "order_publisher \<Rightarrow> nat \<Rightarrow> OrderDamageEvent \<Rightarrow> order_svc \<Rightarrow> error option \<times> order_svc" where
  "HandleOrderDamageEvent pub now event s =
     (case (case order_FindByID (orders s) (de_OrderID event) of
              Inl err \<Rightarrow>
                (let newOrder = \<lparr>ord_ID = de_OrderID event, ord_CustomerID = ''unknown'',
                                  ord_ProductID = ''unknown'', ord_Quantity = 1,
                                  ord_Status = ''created_from_damage_event'', ord_TotalAmount = 0,
                                  ord_CreatedAt = de_OccurredAt event, ord_UpdatedAt = now\<rparr>
                 in case order_Save (orders s) newOrder of
                      (Some err, r) \<Rightarrow>
                        Inl (''failed to create order from damage event: '' @ err, s\<lparr>orders := r\<rparr>)
                    | (None, r) \<Rightarrow> Inr (newOrder, s\<lparr>orders := r\<rparr>))
            | Inr found \<Rightarrow> Inr (found, s)) of
        Inl (err, s) \<Rightarrow> (Some err, s)
      | Inr (order, s) \<Rightarrow>
          (let newStatus = damage_status (de_Severity event);
               order = order\<lparr>ord_Status := newStatus, ord_UpdatedAt := now\<rparr>
           in case order_Update (orders s) order of
                (Some err, r) \<Rightarrow>
                  (Some (''failed to update order status after damage event: '' @ err), s\<lparr>orders := r\<rparr>)
              | (None, r) \<Rightarrow>
                  (let orderEvent = \<lparr>oe_EventType = ''order.damage_processed'', oe_OrderID = ord_ID order,
                                      oe_Order = order, oe_Timestamp = now\<rparr>
                   in (None, \<lparr>orders = r,
                              order_outbox = PublishOrderEvent pub orderEvent (order_outbox s)\<rparr>))))"

subsection \<open>Consumer of the order-damage queue (driving adapter)\<close>

text \<open>
  \<open>translateMessage\<close> returns an \<open>interface{}\<close> that holds an \<open>OrderDamageEvent\<close> or an
  \<open>OrderEvent\<close>. The three uses of \<open>json.Unmarshal\<close> are parameters: each gives the
  decoded value, or \<open>None\<close> when \<open>json.Unmarshal\<close> returns an error.
\<close>

datatype translated = DamageEv OrderDamageEvent | OrderEv OrderEvent

definition handleOrderDamageEvent ::
  "(string \<Rightarrow> OrderDamageEvent option) \<Rightarrow> MQTTOrderEvent \<Rightarrow> error + OrderDamageEvent" where
  "handleOrderDamageEvent unmarshalDamage mqttEvent =
     (case unmarshalDamage (mq_Payload mqttEvent) of
        None \<Rightarrow> Inl ''json: cannot unmarshal payload''
      | Some damageEvent \<Rightarrow> Inr damageEvent)"

definition zero_Order :: Order where
  "zero_Order = \<lparr>ord_ID = [], ord_CustomerID = [], ord_ProductID = [], ord_Quantity = 0,
     ord_Status = [], ord_TotalAmount = 0, ord_CreatedAt = 0, ord_UpdatedAt = 0\<rparr>"

definition translateMessage ::
  "(string \<Rightarrow> MQTTOrderEvent option) \<Rightarrow> (string \<Rightarrow> OrderEvent option)
   \<Rightarrow> (string \<Rightarrow> OrderDamageEvent option) \<Rightarrow> nat \<Rightarrow> string \<Rightarrow> error + translated" where
  "translateMessage unmarshalMQTT unmarshalOrderEvent unmarshalDamage now body =
     (case (case unmarshalMQTT body of
              Some mqttEvent \<Rightarrow>
                if mq_MqttTopic mqttEvent = ''events/order-damage''
                then Some (map_sum id DamageEv (handleOrderDamageEvent unmarshalDamage mqttEvent))
                else None
            | None \<Rightarrow> None) of
        Some result \<Rightarrow> result
      | None \<Rightarrow>
          (case unmarshalOrderEvent body of
             Some event \<Rightarrow> Inr (OrderEv event)
           | None \<Rightarrow>
               Inr (OrderEv \<lparr>oe_EventType = ''order.message'', oe_OrderID = ''unknown'',
                             oe_Order = zero_Order, oe_Timestamp = now\<rparr>)))"

text \<open>
  What the loop of \<open>Start\<close> does with one delivery. The event handler is an interface
  with the two methods \<open>HandleOrderDamageEvent\<close> and \<open>HandleOrderEvent\<close>; both are
  parameters, acting on a state of the handler.
\<close>

datatype acknowledgement = Ack | NackRequeue | NackDiscard

definition Start_delivery ::
  "(string \<Rightarrow> MQTTOrderEvent option) \<Rightarrow> (string \<Rightarrow> OrderEvent option)
   \<Rightarrow> (string \<Rightarrow> OrderDamageEvent option)
   \<Rightarrow> (OrderDamageEvent \<Rightarrow> 's \<Rightarrow> error option \<times> 's) \<Rightarrow> (OrderEvent \<Rightarrow> 's \<Rightarrow> error option \<times> 's)
   \<Rightarrow> nat \<Rightarrow> string \<Rightarrow> 's \<Rightarrow> acknowledgement \<times> 's" where
  "Start_delivery unmarshalMQTT unmarshalOrderEvent unmarshalDamage handleDamage handleOrder now body s =
     (case translateMessage unmarshalMQTT unmarshalOrderEvent unmarshalDamage now body of
        Inl err \<Rightarrow> (NackDiscard, s)
      | Inr event \<Rightarrow>
          (case (case event of
                   DamageEv e \<Rightarrow> handleDamage e s
                 | OrderEv e \<Rightarrow> handleOrder e s) of
             (Some handlingErr, s) \<Rightarrow> (NackRequeue, s)
           | (None, s) \<Rightarrow> (Ack, s)))"

section \<open>Reachable states and invariants of the batch service\<close>

text \<open>The seven operations of the batch service that write to the repository.\<close>

datatype op =
  OpAddOrderToBatch string string int string
| OpRemoveOrderFromBatch string
| OpUpdateOrderStatus string string
| OpProcessBatch string
| OpCompleteBatch string
| OpCancelBatch string
| OpMarkBatchAsDamaged string

definition exec :: "publisher \<Rightarrow> string list \<Rightarrow> nat \<Rightarrow> string \<Rightarrow> op \<Rightarrow> svc \<Rightarrow> svc" where
  "exec pub ks now stamp operation s =
     (case operation of
        OpAddOrderToBatch orderID productID quantity status \<Rightarrow>
          snd (AddOrderToBatch pub ks now stamp orderID productID quantity status s)
      | OpRemoveOrderFromBatch orderID \<Rightarrow> snd (RemoveOrderFromBatch pub ks now orderID s)
      | OpUpdateOrderStatus orderID status \<Rightarrow> snd (UpdateOrderStatus pub ks now orderID status s)
      | OpProcessBatch batchID \<Rightarrow> snd (ProcessBatch pub now batchID s)
      | OpCompleteBatch batchID \<Rightarrow> snd (CompleteBatch pub now batchID s)
      | OpCancelBatch batchID \<Rightarrow> snd (CancelBatch pub now batchID s)
      | OpMarkBatchAsDamaged batchID \<Rightarrow> snd (MarkBatchAsDamaged pub now batchID s))"

definition new_service :: svc where
  "new_service = \<lparr>repo = Map.empty, outbox = []\<rparr>"

text \<open>
  The states the service can be in: it starts with \<open>NewBatchMemoryRepository()\<close> and
  runs one operation after the other, each at some instant, with some publisher, its loop
  over the map in some order.
\<close>

inductive reachable :: "svc \<Rightarrow> bool" where
  start: "reachable new_service"
| step: "reachable s \<Longrightarrow> range_order ks (repo s) \<Longrightarrow> reachable (exec pub ks now stamp operation s)"

definition batch_consistent :: "Batch \<Rightarrow> bool" where
  "batch_consistent b =
     (list_all (\<lambda>item. it_ProductID item = ProductID b) (Items b)
      \<and> TotalItems b = int (length (Items b)))"

definition one_pending_per_product :: "repo \<Rightarrow> bool" where
  "one_pending_per_product r =
     (\<forall>k k' b b'. r k = Some b \<and> r k' = Some b' \<and> ProductID b = ProductID b'
        \<and> Status b = BatchStatusPending \<and> Status b' = BatchStatusPending \<longrightarrow> k = k')"

definition repo_invariant :: "repo \<Rightarrow> bool" where
  "repo_invariant r = ((\<forall>k b. r k = Some b \<longrightarrow> batch_consistent b) \<and> one_pending_per_product r)"

text \<open>Every batch is stored under its own id, as \<open>Save\<close> stores it.\<close>

definition keys_ok :: "repo \<Rightarrow> bool" where
  "keys_ok r = (\<forall>k b. r k = Some b \<longrightarrow> ID b = k)"

definition order_keys_ok :: "order_repo \<Rightarrow> bool" where
  "order_keys_ok r = (\<forall>k order. r k = Some order \<longrightarrow> ord_ID order = k)"

text \<open>The invariant together with the fact that every batch is stored under its id.\<close>

definition repo_ok :: "repo \<Rightarrow> bool" where
  "repo_ok r = (keys_ok r \<and> repo_invariant r)"

text \<open>
  No batch holds two items of one order: \<open>AddItem\<close> rewrites the order's item when the
  batch has one.
\<close>

definition items_distinct :: "Batch \<Rightarrow> bool" where
  "items_distinct b = distinct (map it_OrderID (Items b))"

definition repo_distinct :: "repo \<Rightarrow> bool" where
  "repo_distinct r = (\<forall>k b. r k = Some b \<longrightarrow> items_distinct b)"

text \<open>The items of an order in a batch, and a list of items with the items of an order rewritten.\<close>

definition order_items :: "Batch \<Rightarrow> string \<Rightarrow> BatchItem list" where
  "order_items b orderID = filter (\<lambda>i. it_OrderID i = orderID) (Items b)"

definition rewrite_items :: "string \<Rightarrow> (BatchItem \<Rightarrow> BatchItem) \<Rightarrow> BatchItem list \<Rightarrow> BatchItem list" where
  "rewrite_items orderID f items = map (\<lambda>i. if it_OrderID i = orderID then f i else i) items"

text \<open>The status of an order's item in a batch: that of the item \<open>GetItemByOrderID\<close> finds.\<close>

definition item_status :: "Batch \<Rightarrow> string \<Rightarrow> string option" where
  "item_status b orderID = map_option it_Status (find (\<lambda>i. it_OrderID i = orderID) (Items b))"










section \<open>The words of the specification\<close>

text \<open>
  The set of texts the specification gives for the publisher's recovery, and what it
  means for an error text to match one of them by substring, case-insensitively.
\<close>

definition unknown_topic_texts :: "string list" where
  "unknown_topic_texts =
     [''[3] unknown topic or partition'', ''unknowntopicorpartition'',
      ''unknown topic or partition'', ''topic or partition that does not exist'']"

definition matches_unknown_topic :: "(string \<Rightarrow> string) \<Rightarrow> string \<Rightarrow> bool" where
  "matches_unknown_topic ToLower text =
     (\<exists>t \<in> set unknown_topic_texts. \<exists>before after. ToLower text = before @ t @ after)"

section \<open>Example values\<close>

text \<open>A damaged batch with one item.\<close>

definition damaged_example :: Batch where
  "damaged_example =
     \<lparr>ID = ''BATCH-p1-20250101000000'', ProductID = ''p1'', Status = BatchStatusDamaged,
      Items = [\<lparr>it_OrderID = ''o1'', it_ProductID = ''p1'', it_Quantity = 2,
                it_Status = ''damage_major'', it_AddedAt = 1, it_ProcessedAt = None\<rparr>],
      TotalItems = 1, CreatedAt = 1, UpdatedAt = 2, ProcessedAt = None\<rparr>"

text \<open>The damage event of the service's own example, and an order service that just started.\<close>

definition damage_example :: OrderDamageEvent where
  "damage_example =
     \<lparr>de_EventID = ''evt_1759555253'', de_Type = ''order.damage'',
      de_Source = ''mqtt-order-event-client'', de_OccurredAt = 5, de_OrderID = ''evt_1759555253'',
      de_Severity = ''minor'', de_Description = ''Potential damage detected'',
      de_Temperature = 9, de_Humidity = 58, de_Status = ''active'',
      de_MqttTopic = ''events/sensor''\<rparr>"

definition new_order_service :: order_svc where
  "new_order_service = \<lparr>orders = Map.empty, order_outbox = []\<rparr>"

text \<open>A publisher that accepts every event, and one that refuses every event.\<close>

definition accepting :: "nat \<Rightarrow> 'e \<Rightarrow> error option" where
  "accepting n event = None"

definition refusing :: "nat \<Rightarrow> 'e \<Rightarrow> error option" where
  "refusing n event = Some ''connection refused''"

text \<open>
  A batch event; the adapter as \<open>main\<close> builds it, with the heap that holds its writer;
  and a broker behind \<open>WriteMessages\<close>: a write through a closed writer fails, the first
  write through an open one returns \<open>first\<close>, a later one succeeds.
\<close>

definition created_example :: BatchEvent where
  "created_example = NewBatchCreatedEvent (NewBatch ''BATCH-p1-20250101000000'' ''p1'' 1) 1"

definition adapter_example :: BatchEventPublisherAdapter where
  "adapter_example = fst (NewBatchEventPublisherAdapter ''kafka:9092'' ''warehouse-batch-events'' [])"

definition heap_example :: heap where
  "heap_example = snd (NewBatchEventPublisherAdapter ''kafka:9092'' ''warehouse-batch-events'' [])"

definition broker_example :: "error option \<Rightarrow> nat \<Rightarrow> nat \<Rightarrow> Writer \<Rightarrow> Message \<Rightarrow> error option" where
  "broker_example first n ptr w m =
     (if w_closed w then Some ''io: read/write on closed pipe''
      else if n = 0 then first else None)"

text \<open>
  Decoders for the examples: the body \<open>wrapped\<close> decodes as the wrapper of the damage
  event \<open>damage_example\<close>, the body \<open>bad payload\<close> as a wrapper whose payload is not a
  damage event; no other body decodes as anything (as a body that is not JSON does).
\<close>

definition decode_wrapper :: "string \<Rightarrow> MQTTOrderEvent option" where
  "decode_wrapper body =
     (if body = ''wrapped''
      then Some \<lparr>mq_MqttTopic = ''events/order-damage'', mq_Payload = ''damage'', mq_Timestamp = 0\<rparr>
      else if body = ''bad payload''
      then Some \<lparr>mq_MqttTopic = ''events/order-damage'', mq_Payload = ''{'', mq_Timestamp = 0\<rparr>
      else None)"

definition decode_order_event :: "string \<Rightarrow> OrderEvent option" where
  "decode_order_event body = None"

definition decode_damage :: "string \<Rightarrow> OrderDamageEvent option" where
  "decode_damage payload = (if payload = ''damage'' then Some damage_example else None)"

text \<open>
  States of the batch service, each reached from the start: a batch made at instant 1 for
  the order \<open>o1\<close> of product \<open>p1\<close>; that batch marked damaged, cancelled, or processed and
  completed.
\<close>

definition created_store :: svc where
  "created_store =
     exec accepting [] 1 ''20250101000000'' (OpAddOrderToBatch ''o1'' ''p1'' 2 ''damage_major'')
       new_service"

definition damaged_store :: svc where
  "damaged_store =
     exec accepting [''BATCH-p1-20250101000000''] 2 ''20250101000000''
       (OpMarkBatchAsDamaged ''BATCH-p1-20250101000000'') created_store"

definition cancelled_store :: svc where
  "cancelled_store =
     exec accepting [''BATCH-p1-20250101000000''] 2 ''20250101000001''
       (OpCancelBatch ''BATCH-p1-20250101000000'') created_store"

definition completed_store :: svc where
  "completed_store =
     exec accepting [''BATCH-p1-20250101000000''] 3 ''20250101000002''
       (OpCompleteBatch ''BATCH-p1-20250101000000'')
       (exec accepting [''BATCH-p1-20250101000000''] 2 ''20250101000001''
          (OpProcessBatch ''BATCH-p1-20250101000000'') created_store)"


definition damage_event_example :: "string \<Rightarrow> OrderEvent" where
  "damage_event_example status =
     \<lparr>oe_EventType = ''order.damage_processed'', oe_OrderID = ''o1'',
      oe_Order = \<lparr>ord_ID = ''o1'', ord_CustomerID = ''c1'', ord_ProductID = ''p1'', ord_Quantity = 1,
                  ord_Status = status, ord_TotalAmount = 10, ord_CreatedAt = 0, ord_UpdatedAt = 4\<rparr>,
      oe_Timestamp = 4\<rparr>"

definition returned_event :: OrderEvent where
  "returned_event =
     \<lparr>oe_EventType = ''order.returned'', oe_OrderID = ''o1'',
      oe_Order = \<lparr>ord_ID = ''o1'', ord_CustomerID = ''c1'', ord_ProductID = ''p1'', ord_Quantity = 2,
                  ord_Status = ''returned'', ord_TotalAmount = 10, ord_CreatedAt = 0, ord_UpdatedAt = 3\<rparr>,
      oe_Timestamp = 3\<rparr>"

text \<open>
  The state after the order \<open>o1\<close> was added once more to the damaged batch's state, nine
  seconds later: the product has no pending batch, so a second batch is made for it.
\<close>

definition twice_store :: svc where
  "twice_store =
     exec accepting [''BATCH-p1-20250101000000''] 3 ''20250101000009''
       (OpAddOrderToBatch ''o1'' ''p1'' 2 ''allocated'') damaged_store"

section \<open>Theorems\<close>

subsection \<open>Damage detector\<close>

lemma deriveSeverity_cases:
  "deriveSeverity t h =
     (if t \<ge> 40 \<or> h \<ge> 90 then ''critical''
      else if t \<ge> 30 \<or> h \<ge> 80 then ''major'' else ''minor'')"
  by (simp add: deriveSeverity_def Let_def)

text \<open>
  C7, as stated, asks that a triggered reading is sent to both outputs, the MQTT topic and
  the log-broker topic. For the reading of 5 degrees, with the MQTT publisher connected,
  the handler makes exactly one attempt, on the MQTT topic, and none on the log broker.
\<close>

theorem C7_both_outputs_counterexample:
  "\<not> (list_ex (\<lambda>a. is_mqtt (att_sink a))
         (snd (messageHandler (Some ''events/order-damage'') minTemperature (\<lambda>t h. ''d'') 0
                 ''events/sensor'' (Some cold_reading) empty_store))
      \<and> list_ex (\<lambda>a. is_log_broker (att_sink a))
         (snd (messageHandler (Some ''events/order-damage'') minTemperature (\<lambda>t h. ''d'') 0
                 ''events/sensor'' (Some cold_reading) empty_store)))"
  by (simp add: messageHandler_def mqtt_PublishOrderDamageFromSensor_def cold_reading_def
      minTemperature_def is_log_broker_def)

text \<open>
  C7 (amended): for every parsed sensor reading handled while the MQTT publisher is
  connected, a damage event is emitted if and only if the temperature is strictly below
  the minimum temperature; when emitted, exactly one output is attempted, the publisher's
  MQTT topic, under a 5 second deadline, and the event carries the reading's id as order
  id and the severity critical if temperature >= 40 or humidity >= 90, else major if
  temperature >= 30 or humidity >= 80, else minor.
\<close>

theorem C7_detector_emits_on_mqtt:
  "snd (messageHandler (Some topic) minTemp sprintf now msgTopic (Some event) store) =
     (if ev_Temperature event < minTemp
      then [\<lparr>att_sink = MqttSink topic, att_timeout = 5,
             att_event = \<lparr>sd_EventID = ev_ID event, sd_Type = ''order.damage'',
               sd_Source = ''mqtt-order-event-client'', sd_OccurredAt = now,
               sd_OrderID = ev_ID event,
               sd_Severity =
                 (if ev_Temperature event \<ge> 40 \<or> ev_Humidity event \<ge> 90 then ''critical''
                  else if ev_Temperature event \<ge> 30 \<or> ev_Humidity event \<ge> 80 then ''major''
                  else ''minor''),
               sd_Description = sprintf (ev_Temperature event) (ev_Humidity event),
               sd_Temperature = ev_Temperature event, sd_Humidity = ev_Humidity event,
               sd_Status = ev_Status event, sd_MqttTopic = msgTopic\<rparr>\<rparr>]
      else [])"
  by (simp add: messageHandler_def mqtt_PublishOrderDamageFromSensor_def buildDamageEvent_def
      deriveSeverity_cases)

subsection \<open>Facts about the constants\<close>

lemma status_distinct [simp]:
  "BatchStatusPending \<noteq> BatchStatusProcessing" "BatchStatusPending \<noteq> BatchStatusCompleted"
  "BatchStatusPending \<noteq> BatchStatusCancelled" "BatchStatusPending \<noteq> BatchStatusDamaged"
  "BatchStatusProcessing \<noteq> BatchStatusPending" "BatchStatusProcessing \<noteq> BatchStatusCompleted"
  "BatchStatusProcessing \<noteq> BatchStatusCancelled" "BatchStatusProcessing \<noteq> BatchStatusDamaged"
  "BatchStatusCompleted \<noteq> BatchStatusPending" "BatchStatusCompleted \<noteq> BatchStatusProcessing"
  "BatchStatusCompleted \<noteq> BatchStatusCancelled" "BatchStatusCompleted \<noteq> BatchStatusDamaged"
  "BatchStatusCancelled \<noteq> BatchStatusPending" "BatchStatusCancelled \<noteq> BatchStatusProcessing"
  "BatchStatusCancelled \<noteq> BatchStatusCompleted" "BatchStatusCancelled \<noteq> BatchStatusDamaged"
  "BatchStatusDamaged \<noteq> BatchStatusPending" "BatchStatusDamaged \<noteq> BatchStatusProcessing"
  "BatchStatusDamaged \<noteq> BatchStatusCompleted" "BatchStatusDamaged \<noteq> BatchStatusCancelled"
  by (simp_all add: BatchStatusPending_def BatchStatusProcessing_def BatchStatusCompleted_def
      BatchStatusCancelled_def BatchStatusDamaged_def)

subsection \<open>Order aggregator\<close>

lemma HandleOrderDamageEvent_result:
  assumes "order_keys_ok (orders s)"
  shows "HandleOrderDamageEvent pub now event s =
     (let status = (if de_Severity event = ''minor'' then ''damage_detected_minor''
                    else if de_Severity event = ''major'' then ''damage_detected_major''
                    else if de_Severity event = ''critical'' then ''cancelled_damage''
                    else ''damage_detected_unknown'');
          order = (case orders s (de_OrderID event) of
                     None \<Rightarrow> \<lparr>ord_ID = de_OrderID event, ord_CustomerID = ''unknown'',
                               ord_ProductID = ''unknown'', ord_Quantity = 1, ord_Status = status,
                               ord_TotalAmount = 0, ord_CreatedAt = de_OccurredAt event,
                               ord_UpdatedAt = now\<rparr>
                   | Some found \<Rightarrow> found\<lparr>ord_Status := status, ord_UpdatedAt := now\<rparr>);
          orderEvent = \<lparr>oe_EventType = ''order.damage_processed'', oe_OrderID = de_OrderID event,
                         oe_Order = order, oe_Timestamp = now\<rparr>
      in (None, \<lparr>orders = (orders s)(de_OrderID event \<mapsto> order),
                 order_outbox = order_outbox s @ [(orderEvent, pub (length (order_outbox s)) orderEvent)]\<rparr>))"
proof (cases "orders s (de_OrderID event)")
  case None
  then show ?thesis
    by (simp add: HandleOrderDamageEvent_def order_FindByID_def order_Save_def order_Update_def
        PublishOrderEvent_def damage_status_def Let_def)
next
  case (Some found)
  with assms have "ord_ID found = de_OrderID event" by (auto simp: order_keys_ok_def)
  with Some show ?thesis
    by (simp add: HandleOrderDamageEvent_def order_FindByID_def order_Save_def order_Update_def
        PublishOrderEvent_def damage_status_def Let_def)
qed

text \<open>
  C2, as stated, has exactly one order event published for every damage event. With a
  publisher that refuses the event, the handler stores the order with its new status and
  returns no error; its one call of the publisher failed, and no event was published.
\<close>

theorem C2_refused_publish_counterexample:
  "fst (HandleOrderDamageEvent refusing 7 damage_example new_order_service) = None
   \<and> map_option ord_Status
        (orders (snd (HandleOrderDamageEvent refusing 7 damage_example new_order_service))
           ''evt_1759555253'') = Some ''damage_detected_minor''
   \<and> map snd (order_outbox (snd (HandleOrderDamageEvent refusing 7 damage_example new_order_service))) =
        [Some ''connection refused'']
   \<and> published_order_events (snd (HandleOrderDamageEvent refusing 7 damage_example new_order_service)) = []"
  by (simp add: HandleOrderDamageEvent_def order_FindByID_def order_Save_def order_Update_def
      PublishOrderEvent_def published_order_events_def new_order_service_def damage_example_def
      damage_status_def refusing_def Let_def)

text \<open>
  C2 (amended): for every damage event handled by the order aggregator, on a repository
  that stores every order under its id: when no order exists for the event's order id, one
  is made with customer id "unknown", product id "unknown", quantity 1, total amount 0 and
  creation time the event's time of occurrence; in all cases the order stored afterwards
  has the status damage_detected_minor for severity "minor", damage_detected_major for
  "major", cancelled_damage for "critical" and damage_detected_unknown for any other
  severity; the handler returns no error; and it calls the publisher exactly once, with an
  event of type "order.damage_processed" that carries the updated order. That event is
  published when the publisher accepts it; when the publisher returns an error nothing is
  published, and the handler still returns no error.
\<close>

theorem C2_damage_event_handled:
  assumes "order_keys_ok (orders s)"
  shows
    "(let status = (if de_Severity event = ''minor'' then ''damage_detected_minor''
                    else if de_Severity event = ''major'' then ''damage_detected_major''
                    else if de_Severity event = ''critical'' then ''cancelled_damage''
                    else ''damage_detected_unknown'');
          order = (case orders s (de_OrderID event) of
                     None \<Rightarrow> \<lparr>ord_ID = de_OrderID event, ord_CustomerID = ''unknown'',
                               ord_ProductID = ''unknown'', ord_Quantity = 1, ord_Status = status,
                               ord_TotalAmount = 0, ord_CreatedAt = de_OccurredAt event,
                               ord_UpdatedAt = now\<rparr>
                   | Some found \<Rightarrow> found\<lparr>ord_Status := status, ord_UpdatedAt := now\<rparr>);
          orderEvent = \<lparr>oe_EventType = ''order.damage_processed'', oe_OrderID = de_OrderID event,
                         oe_Order = order, oe_Timestamp = now\<rparr>;
          answer = pub (length (order_outbox s)) orderEvent
      in HandleOrderDamageEvent pub now event s =
           (None, \<lparr>orders = (orders s)(de_OrderID event \<mapsto> order),
                   order_outbox = order_outbox s @ [(orderEvent, answer)]\<rparr>)
         \<and> published_order_events (snd (HandleOrderDamageEvent pub now event s)) =
             published_order_events s @ (if answer = None then [orderEvent] else []))"
  using HandleOrderDamageEvent_result [OF assms, of pub now event]
  by (simp add: Let_def published_order_events_def)

theorem C2_damage_event_handled_witness:
  "order_keys_ok (orders new_order_service)
   \<and> HandleOrderDamageEvent accepting 7 damage_example new_order_service =
       (None,
        \<lparr>orders = Map.empty(''evt_1759555253'' \<mapsto>
           \<lparr>ord_ID = ''evt_1759555253'', ord_CustomerID = ''unknown'', ord_ProductID = ''unknown'',
            ord_Quantity = 1, ord_Status = ''damage_detected_minor'', ord_TotalAmount = 0,
            ord_CreatedAt = 5, ord_UpdatedAt = 7\<rparr>),
         order_outbox =
           [(\<lparr>oe_EventType = ''order.damage_processed'', oe_OrderID = ''evt_1759555253'',
              oe_Order = \<lparr>ord_ID = ''evt_1759555253'', ord_CustomerID = ''unknown'',
                ord_ProductID = ''unknown'', ord_Quantity = 1, ord_Status = ''damage_detected_minor'',
                ord_TotalAmount = 0, ord_CreatedAt = 5, ord_UpdatedAt = 7\<rparr>,
              oe_Timestamp = 7\<rparr>, None)]\<rparr>)
   \<and> published_order_events (snd (HandleOrderDamageEvent accepting 7 damage_example new_order_service)) =
       [\<lparr>oe_EventType = ''order.damage_processed'', oe_OrderID = ''evt_1759555253'',
         oe_Order = \<lparr>ord_ID = ''evt_1759555253'', ord_CustomerID = ''unknown'',
           ord_ProductID = ''unknown'', ord_Quantity = 1, ord_Status = ''damage_detected_minor'',
           ord_TotalAmount = 0, ord_CreatedAt = 5, ord_UpdatedAt = 7\<rparr>,
         oe_Timestamp = 7\<rparr>]
   \<and> published_order_events (snd (HandleOrderDamageEvent refusing 7 damage_example new_order_service)) = []"
proof -
  have ok: "order_keys_ok (orders new_order_service)"
    by (simp add: order_keys_ok_def new_order_service_def)
  show ?thesis
    using ok C2_damage_event_handled [OF ok, of damage_example 7 accepting]
      C2_damage_event_handled [OF ok, of damage_example 7 refusing]
    by (simp add: published_order_events_def new_order_service_def damage_example_def
        accepting_def refusing_def Let_def)
qed

subsection \<open>Methods of the batch aggregate\<close>

lemma update_first_None:
  "update_first orderID f items = None \<longleftrightarrow> (\<forall>i \<in> set items. it_OrderID i \<noteq> orderID)"
  by (induction items) auto

lemma remove_first_None:
  "remove_first orderID items = None \<longleftrightarrow> (\<forall>i \<in> set items. it_OrderID i \<noteq> orderID)"
  by (induction items) auto

lemma find_order_None:
  "find (\<lambda>i. it_OrderID i = orderID) items = None \<longleftrightarrow> (\<forall>i \<in> set items. it_OrderID i \<noteq> orderID)"
  by (induction items) auto

lemma find_SomeD: "find P xs = Some x \<Longrightarrow> x \<in> set xs \<and> P x"
  by (induction xs) (auto split: if_splits)

lemma HasOrder_iff: "HasOrder b orderID \<longleftrightarrow> (\<exists>i \<in> set (Items b). it_OrderID i = orderID)"
  by (auto simp: HasOrder_def GetItemByOrderID_def find_order_None split: option.splits
      dest: find_SomeD)

lemma remove_first_length:
  "remove_first orderID items = Some items' \<Longrightarrow> length items = Suc (length items')"
  by (induction items arbitrary: items') (auto split: if_splits)

lemma update_first_has:
  assumes "update_first orderID f items = Some items'" and "\<And>i. it_OrderID (f i) = it_OrderID i"
  shows "\<exists>i \<in> set items'. it_OrderID i = orderID"
  using assms by (induction items arbitrary: items') (auto split: if_splits)

lemma update_first_length:
  "update_first orderID f items = Some items' \<Longrightarrow> length items' = length items"
  by (induction items arbitrary: items') (auto split: if_splits)

text \<open>
  C4, as stated, makes damaged a terminal state that refuses item changes. On the damaged
  batch of the examples, \<open>Cancel\<close> succeeds and makes it cancelled, \<open>AddItem\<close> appends a
  second item and \<open>RemoveItem\<close> removes its item.
\<close>

theorem C4_damaged_not_terminal_counterexample:
  "Status damaged_example = BatchStatusDamaged
   \<and> Cancel damaged_example 9 = Inr (damaged_example\<lparr>Status := BatchStatusCancelled, UpdatedAt := 9\<rparr>)
   \<and> AddItem damaged_example ''o2'' ''p1'' 1 ''allocated'' 9 =
       Inr (damaged_example\<lparr>Items := Items damaged_example @
              [\<lparr>it_OrderID = ''o2'', it_ProductID = ''p1'', it_Quantity = 1,
                it_Status = ''allocated'', it_AddedAt = 9, it_ProcessedAt = None\<rparr>],
            TotalItems := 2, UpdatedAt := 9\<rparr>)
   \<and> RemoveItem damaged_example ''o1'' 9 =
       Inr (damaged_example\<lparr>Items := [], TotalItems := 0, UpdatedAt := 9\<rparr>)"
  by (simp add: damaged_example_def Cancel_def AddItem_def RemoveItem_def Let_def)

text \<open>
  C4 (amended): for every batch whose status is damaged, \<open>StartProcessing\<close> and \<open>Complete\<close>
  fail with a domain error (the batch is not changed) and \<open>MarkAsDamaged\<close> leaves it
  damaged; \<open>Cancel\<close> succeeds and makes it cancelled; \<open>AddItem\<close> for the batch's product
  succeeds and the batch, still damaged, then holds the order; \<open>RemoveItem\<close> of an order
  the batch holds succeeds and leaves one item less.
\<close>

theorem C4_damaged_batch_operations:
  assumes "Status b = BatchStatusDamaged"
  shows "StartProcessing b now = Inl (''cannot start processing batch with status '' @ Status b)
     \<and> Complete b now = Inl (''cannot complete batch with status '' @ Status b)
     \<and> MarkAsDamaged b now = Inr (b\<lparr>UpdatedAt := now\<rparr>)
     \<and> Cancel b now = Inr (b\<lparr>Status := BatchStatusCancelled, UpdatedAt := now\<rparr>)
     \<and> (ProductID b = productID \<longrightarrow>
          (\<exists>b'. AddItem b orderID productID quantity status now = Inr b'
                \<and> Status b' = BatchStatusDamaged \<and> HasOrder b' orderID))
     \<and> (HasOrder b orderID \<longrightarrow>
          (\<exists>b'. RemoveItem b orderID now = Inr b' \<and> Status b' = BatchStatusDamaged
                \<and> Suc (length (Items b')) = length (Items b)))"
proof -
  have add: "\<exists>b'. AddItem b orderID productID quantity status now = Inr b'
                \<and> Status b' = BatchStatusDamaged \<and> HasOrder b' orderID"
    if "ProductID b = productID"
  proof (cases "update_first orderID
      (\<lambda>item. item\<lparr>it_Quantity := quantity, it_Status := status, it_AddedAt := now\<rparr>) (Items b)")
    case None
    with that assms show ?thesis
      by (simp add: AddItem_def Let_def HasOrder_iff)
  next
    case (Some items)
    have "\<exists>i \<in> set items. it_OrderID i = orderID"
      using Some by (rule update_first_has) simp
    with Some that assms show ?thesis
      by (simp add: AddItem_def Let_def HasOrder_iff)
  qed
  have remove: "\<exists>b'. RemoveItem b orderID now = Inr b' \<and> Status b' = BatchStatusDamaged
                \<and> Suc (length (Items b')) = length (Items b)"
    if "HasOrder b orderID"
  proof -
    from that obtain items where "remove_first orderID (Items b) = Some items"
      by (cases "remove_first orderID (Items b)") (auto simp: remove_first_None HasOrder_iff)
    with assms show ?thesis
      by (simp add: RemoveItem_def remove_first_length)
  qed
  from assms add remove show ?thesis
    by (simp add: StartProcessing_def Complete_def MarkAsDamaged_def Cancel_def)
qed

theorem C4_damaged_batch_operations_witness:
  "Status damaged_example = BatchStatusDamaged
   \<and> StartProcessing damaged_example 9 = Inl ''cannot start processing batch with status damaged''
   \<and> Complete damaged_example 9 = Inl ''cannot complete batch with status damaged''
   \<and> MarkAsDamaged damaged_example 9 = Inr (damaged_example\<lparr>UpdatedAt := 9\<rparr>)
   \<and> Cancel damaged_example 9 = Inr (damaged_example\<lparr>Status := BatchStatusCancelled, UpdatedAt := 9\<rparr>)
   \<and> ProductID damaged_example = ''p1''
   \<and> isl (AddItem damaged_example ''o2'' ''p1'' 1 ''allocated'' 9) = False
   \<and> HasOrder damaged_example ''o1''
   \<and> isl (RemoveItem damaged_example ''o1'' 9) = False"
proof -
  have damaged: "Status damaged_example = BatchStatusDamaged"
    by (simp add: damaged_example_def)
  have product: "ProductID damaged_example = ''p1''" and has: "HasOrder damaged_example ''o1''"
    by (simp_all add: damaged_example_def HasOrder_def GetItemByOrderID_def)
  from C4_damaged_batch_operations [OF damaged, where now = 9 and productID = "''p1''"
      and orderID = "''o1''" and quantity = 1 and status = "''allocated''"]
    C4_damaged_batch_operations [OF damaged, where now = 9 and productID = "''p1''"
      and orderID = "''o2''" and quantity = 1 and status = "''allocated''"]
    damaged product has
  show ?thesis
    by (auto simp: BatchStatusDamaged_def)
qed

subsection \<open>Kafka publisher of batch events\<close>

lemma HasPrefix_iff: "HasPrefix s p \<longleftrightarrow> (\<exists>after. s = p @ after)"
  by (induction s p rule: HasPrefix.induct) auto

lemma Contains_iff: "Contains s sub \<longleftrightarrow> (\<exists>before after. s = before @ sub @ after)"
proof (induction s)
  case Nil
  then show ?case by simp
next
  case (Cons c s)
  show ?case
  proof
    assume "Contains (c # s) sub"
    then consider "HasPrefix (c # s) sub" | "Contains s sub" by auto
    then show "\<exists>before after. c # s = before @ sub @ after"
    proof cases
      case 1
      then obtain after where "c # s = sub @ after" by (auto simp: HasPrefix_iff)
      then have "c # s = [] @ sub @ after" by simp
      then show ?thesis by blast
    next
      case 2
      with Cons obtain before after where "s = before @ sub @ after" by blast
      then have "c # s = (c # before) @ sub @ after" by simp
      then show ?thesis by blast
    qed
  next
    assume "\<exists>before after. c # s = before @ sub @ after"
    then obtain before after where eq: "c # s = before @ sub @ after" by blast
    show "Contains (c # s) sub"
    proof (cases before)
      case Nil
      with eq have "HasPrefix (c # s) sub" by (auto simp: HasPrefix_iff)
      then show ?thesis by simp
    next
      case (Cons d before')
      with eq have "s = before' @ sub @ after" by simp
      with Cons.IH have "Contains s sub" by blast
      then show ?thesis by simp
    qed
  qed
qed

lemma isUnknownTopicOrPartitionError_iff:
  "isUnknownTopicOrPartitionError ToLower (Some text) \<longleftrightarrow> matches_unknown_topic ToLower text"
  by (simp add: isUnknownTopicOrPartitionError_def matches_unknown_topic_def
      unknown_topic_texts_def Contains_iff Let_def)

text \<open>The service's result and repository do not depend on what the publisher returns.\<close>

lemma AddOrderToBatch_publisher:
  "fst (AddOrderToBatch pub ks now stamp orderID productID quantity status s) =
   fst (AddOrderToBatch pub' ks now stamp orderID productID quantity status s)
   \<and> repo (snd (AddOrderToBatch pub ks now stamp orderID productID quantity status s)) =
     repo (snd (AddOrderToBatch pub' ks now stamp orderID productID quantity status s))"
  by (simp add: AddOrderToBatch_def Save_def Let_def split: sum.splits prod.splits)

lemma RemoveOrderFromBatch_publisher:
  "fst (RemoveOrderFromBatch pub ks now orderID s) = fst (RemoveOrderFromBatch pub' ks now orderID s)
   \<and> repo (snd (RemoveOrderFromBatch pub ks now orderID s)) =
     repo (snd (RemoveOrderFromBatch pub' ks now orderID s))"
  by (simp add: RemoveOrderFromBatch_def Save_def Delete_def Let_def split: sum.splits prod.splits)

lemma UpdateOrderStatus_publisher:
  "fst (UpdateOrderStatus pub ks now orderID status s) = fst (UpdateOrderStatus pub' ks now orderID status s)
   \<and> repo (snd (UpdateOrderStatus pub ks now orderID status s)) =
     repo (snd (UpdateOrderStatus pub' ks now orderID status s))"
  by (simp add: UpdateOrderStatus_def Save_def Let_def split: sum.splits prod.splits)

lemma transition_publisher:
  "fst (transition m f e pub now batchID s) = fst (transition m f e pub' now batchID s)
   \<and> repo (snd (transition m f e pub now batchID s)) = repo (snd (transition m f e pub' now batchID s))"
  by (simp add: transition_def Save_def Let_def split: sum.splits prod.splits)

lemma exec_publisher:
  "repo (exec pub ks now stamp operation s) = repo (exec pub' ks now stamp operation s)"
  by (cases operation)
    (simp_all add: exec_def AddOrderToBatch_publisher RemoveOrderFromBatch_publisher
      UpdateOrderStatus_publisher transition_publisher ProcessBatch_def CompleteBatch_def
      CancelBatch_def MarkBatchAsDamaged_def)

text \<open>
  The adapter's writer is open and has the configuration of the constructor: so the
  constructor leaves it, and so every publish leaves it.
\<close>

lemma NewBatchEventPublisherAdapter_writer:
  assumes "NewBatchEventPublisherAdapter address topicName h = (p, h')"
  shows "pa_writer p < length h' \<and> h' ! pa_writer p = newWriter (pa_brokerAddress p) (pa_topic p)"
  using assms nth_append_length [of h "newWriter address topicName" "[]"]
  by (auto simp: NewBatchEventPublisherAdapter_def alloc_def simp del: nth_append_length)

lemma PublishBatchEvent_writer:
  assumes "pa_writer p < length h"
    and "h ! pa_writer p = newWriter (pa_brokerAddress p) (pa_topic p)"
    and "PublishBatchEvent ToLower marshal format_time broker p h event = (err, p', h', steps)"
  shows "pa_writer p' < length h' \<and> h' ! pa_writer p' = newWriter (pa_brokerAddress p') (pa_topic p')"
proof -
  let ?w = "newWriter (pa_brokerAddress p) (pa_topic p)"
  have new: "(writer_Close (pa_writer p) h @ [?w]) ! length h = ?w"
    using nth_append_length [of "writer_Close (pa_writer p) h" ?w "[]"]
    by (simp add: writer_Close_def)
  have "p' = p \<and> h' = h
      \<or> p' = p\<lparr>pa_writer := length h\<rparr> \<and> h' = writer_Close (pa_writer p) h @ [?w]"
  proof (cases "marshal event")
    case (Inl e)
    with assms(3) show ?thesis by (simp add: PublishBatchEvent_def)
  next
    case (Inr eventData)
    let ?m = "kafka_message format_time eventData event"
    show ?thesis
    proof (cases "broker 0 (pa_writer p) (h ! pa_writer p) ?m")
      case None
      with Inr assms(3) show ?thesis by (simp add: PublishBatchEvent_def Let_def)
    next
      case (Some e)
      show ?thesis
      proof (cases "isUnknownTopicOrPartitionError ToLower (Some e)")
        case False
        with Inr Some assms(3) show ?thesis by (simp add: PublishBatchEvent_def Let_def)
      next
        case True
        have len: "length (writer_Close (pa_writer p) h) = length h"
          by (simp add: writer_Close_def)
        from True Inr Some assms(3) show ?thesis
          by (auto simp: PublishBatchEvent_def recreateWriter_def alloc_def len Let_def
              simp del: nth_append_length split: option.splits)
      qed
    qed
  qed
  then show ?thesis
  proof
    assume "p' = p \<and> h' = h"
    with assms(1,2) show ?thesis by simp
  next
    assume "p' = p\<lparr>pa_writer := length h\<rparr> \<and> h' = writer_Close (pa_writer p) h @ [?w]"
    with new show ?thesis by (simp add: writer_Close_def)
  qed
qed

text \<open>
  C8: for every publish of a batch event that marshals, by an adapter whose writer is
  open and has the configuration the constructor gives it: a first write that succeeds is
  the only action. When the first write fails, then if (and only if) the error text
  matches, by substring and after lower-casing, one of the four texts, the adapter closes
  its writer, makes a new writer object of the same configuration, which is open and is
  not the object just closed, sleeps 2 seconds and writes the same message once more,
  through the new writer, and returns no error exactly when that second write succeeds;
  the adapter keeps the new writer. For any other error it returns the error after the
  single write and keeps its writer. The repository a service operation leaves does not
  depend on what the publisher returned.
\<close>

theorem C8_publisher_recovery:
  assumes "marshal event = Inr eventData"
    and "pa_writer p < length h"
    and "h ! pa_writer p = newWriter (pa_brokerAddress p) (pa_topic p)"
  shows
    "(let message = kafka_message format_time eventData event;
          old = pa_writer p;
          new = length h;
          h' = h[old := (h ! old)\<lparr>w_closed := True\<rparr>] @ [newWriter (pa_brokerAddress p) (pa_topic p)]
      in PublishBatchEvent ToLower marshal format_time broker p h event =
           (case broker 0 old (h ! old) message of
              None \<Rightarrow> (None, p, h, [WriteMessages old 10 message])
            | Some err \<Rightarrow>
                if matches_unknown_topic ToLower err
                then (map_option ((@) ''failed to write batch event to Kafka after retry: '')
                        (broker 1 new (h' ! new) message),
                      p\<lparr>pa_writer := new\<rparr>, h',
                      [WriteMessages old 10 message, CloseWriter old, MakeWriter new (h' ! new),
                       Sleep 2, WriteMessages new 10 message])
                else (Some (''failed to write batch event to Kafka: '' @ err), p, h,
                      [WriteMessages old 10 message]))
         \<and> new \<noteq> old \<and> w_closed (h' ! old) \<and> \<not> w_closed (h' ! new) \<and> h' ! new = h ! old
         \<and> (fst (PublishBatchEvent ToLower marshal format_time broker p h event) = None
              \<longleftrightarrow> broker 0 old (h ! old) message = None
                  \<or> (\<exists>err. broker 0 old (h ! old) message = Some err
                        \<and> matches_unknown_topic ToLower err
                        \<and> broker 1 new (h' ! new) message = None)))
     \<and> repo (exec pub ks now stamp operation s) = repo (exec pub' ks now stamp operation s)"
proof -
  let ?message = "kafka_message format_time eventData event"
  let ?old = "pa_writer p"
  let ?w = "newWriter (pa_brokerAddress p) (pa_topic p)"
  let ?h' = "h[?old := (h ! ?old)\<lparr>w_closed := True\<rparr>] @ [?w]"
  have len: "length (h[?old := (h ! ?old)\<lparr>w_closed := True\<rparr>]) = length h"
    by simp
  have new: "?h' ! length h = ?w"
    using nth_append_length [of "h[?old := (h ! ?old)\<lparr>w_closed := True\<rparr>]" ?w] by simp
  have old: "?h' ! ?old = (h ! ?old)\<lparr>w_closed := True\<rparr>"
    using assms(2) by (simp add: nth_append)
  have recreate: "recreateWriter p (writer_Close ?old h) = (p\<lparr>pa_writer := length h\<rparr>, ?h')"
    by (simp add: recreateWriter_def alloc_def writer_Close_def)
  have run: "PublishBatchEvent ToLower marshal format_time broker p h event =
           (case broker 0 ?old (h ! ?old) ?message of
              None \<Rightarrow> (None, p, h, [WriteMessages ?old 10 ?message])
            | Some err \<Rightarrow>
                if matches_unknown_topic ToLower err
                then (map_option ((@) ''failed to write batch event to Kafka after retry: '')
                        (broker 1 (length h) (?h' ! length h) ?message),
                      p\<lparr>pa_writer := length h\<rparr>, ?h',
                      [WriteMessages ?old 10 ?message, CloseWriter ?old,
                       MakeWriter (length h) (?h' ! length h), Sleep 2,
                       WriteMessages (length h) 10 ?message])
                else (Some (''failed to write batch event to Kafka: '' @ err), p, h,
                      [WriteMessages ?old 10 ?message]))"
    using assms(1)
    by (simp add: PublishBatchEvent_def recreate isUnknownTopicOrPartitionError_iff Let_def
        del: nth_append_length split: option.splits)
  have "length h \<noteq> ?old"
    using assms(2) by simp
  moreover have "w_closed (?h' ! ?old)"
    unfolding old by simp
  moreover have "\<not> w_closed (?h' ! length h)"
    unfolding new by (simp add: newWriter_def)
  moreover have "?h' ! length h = h ! ?old"
    unfolding new using assms(3) by simp
  ultimately have facts: "length h \<noteq> ?old \<and> w_closed (?h' ! ?old) \<and> \<not> w_closed (?h' ! length h)
      \<and> ?h' ! length h = h ! ?old"
    by blast
  have success: "fst (PublishBatchEvent ToLower marshal format_time broker p h event) = None
      \<longleftrightarrow> broker 0 ?old (h ! ?old) ?message = None
          \<or> (\<exists>err. broker 0 ?old (h ! ?old) ?message = Some err
                \<and> matches_unknown_topic ToLower err
                \<and> broker 1 (length h) (?h' ! length h) ?message = None)"
    unfolding run by (cases "broker 0 ?old (h ! ?old) ?message") simp_all
  from run facts success exec_publisher [of pub ks now stamp operation s pub'] show ?thesis
    unfolding Let_def by blast
qed

theorem C8_publisher_recovery_witness:
  "(\<lambda>e. Inr ''{}'' :: error + string) created_example = Inr ''{}''
   \<and> pa_writer adapter_example < length heap_example
   \<and> heap_example ! pa_writer adapter_example =
       newWriter (pa_brokerAddress adapter_example) (pa_topic adapter_example)
   \<and> isUnknownTopicOrPartitionError ascii_ToLower (Some ''[3] Unknown Topic Or Partition'')
   \<and> PublishBatchEvent ascii_ToLower (\<lambda>e. Inr ''{}'') (\<lambda>t. ''2025-01-01T00:00:00Z'')
        (broker_example (Some ''[3] Unknown Topic Or Partition'')) adapter_example heap_example
        created_example =
       (None, adapter_example\<lparr>pa_writer := 1\<rparr>,
        [(newWriter ''kafka:9092'' ''warehouse-batch-events'')\<lparr>w_closed := True\<rparr>,
         newWriter ''kafka:9092'' ''warehouse-batch-events''],
        [WriteMessages 0 10 (kafka_message (\<lambda>t. ''2025-01-01T00:00:00Z'') ''{}'' created_example),
         CloseWriter 0,
         MakeWriter 1 (newWriter ''kafka:9092'' ''warehouse-batch-events''),
         Sleep 2,
         WriteMessages 1 10 (kafka_message (\<lambda>t. ''2025-01-01T00:00:00Z'') ''{}'' created_example)])
   \<and> \<not> isUnknownTopicOrPartitionError ascii_ToLower (Some ''connection refused'')
   \<and> PublishBatchEvent ascii_ToLower (\<lambda>e. Inr ''{}'') (\<lambda>t. ''2025-01-01T00:00:00Z'')
        (broker_example (Some ''connection refused'')) adapter_example heap_example
        created_example =
       (Some ''failed to write batch event to Kafka: connection refused'', adapter_example,
        heap_example,
        [WriteMessages 0 10 (kafka_message (\<lambda>t. ''2025-01-01T00:00:00Z'') ''{}'' created_example)])"
proof -
  have m: "(\<lambda>e. Inr ''{}'' :: error + string) created_example = Inr ''{}''"
    by simp
  have a: "adapter_example =
      \<lparr>pa_writer = 0, pa_topic = ''warehouse-batch-events'', pa_brokerAddress = ''kafka:9092''\<rparr>"
    and h: "heap_example = [newWriter ''kafka:9092'' ''warehouse-batch-events'']"
    by (simp_all add: adapter_example_def heap_example_def NewBatchEventPublisherAdapter_def alloc_def)
  have l: "pa_writer adapter_example < length heap_example"
    and w: "heap_example ! pa_writer adapter_example =
       newWriter (pa_brokerAddress adapter_example) (pa_topic adapter_example)"
    by (simp_all add: a h)
  have yes: "isUnknownTopicOrPartitionError ascii_ToLower (Some ''[3] Unknown Topic Or Partition'')"
    by (simp add: isUnknownTopicOrPartitionError_def ascii_ToLower_def ascii_lower_def)
  have no: "\<not> isUnknownTopicOrPartitionError ascii_ToLower (Some ''connection refused'')"
    by (simp add: isUnknownTopicOrPartitionError_def ascii_ToLower_def ascii_lower_def)
  have closed: "w_closed (newWriter ''kafka:9092'' ''warehouse-batch-events'') = False"
    by (simp add: newWriter_def)
  from C8_publisher_recovery [OF m l w, where ToLower = ascii_ToLower
      and broker = "broker_example (Some ''[3] Unknown Topic Or Partition'')"
      and format_time = "\<lambda>t. ''2025-01-01T00:00:00Z''"]
    C8_publisher_recovery [OF m l w, where ToLower = ascii_ToLower
      and broker = "broker_example (Some ''connection refused'')"
      and format_time = "\<lambda>t. ''2025-01-01T00:00:00Z''"]
    l w yes no
  show ?thesis
    by (simp add: isUnknownTopicOrPartitionError_iff Let_def a h broker_example_def closed)
qed

subsection \<open>Consumer of the order-damage queue\<close>

text \<open>
  C6, as stated, has a body of malformed JSON rejected without requeue, and has the
  delivery acked only once the order event is queued. A body that no decoder accepts is
  acked; and the wrapped damage event is acked although the publisher refused the order
  event the handler made for it.
\<close>

theorem C6_malformed_body_acked_counterexample:
  "fst (Start_delivery decode_wrapper decode_order_event decode_damage
          (HandleOrderDamageEvent accepting 7) order_HandleOrderEvent 7 ''{not json''
          new_order_service) = Ack
   \<and> fst (Start_delivery decode_wrapper decode_order_event decode_damage
          (HandleOrderDamageEvent refusing 7) order_HandleOrderEvent 7 ''wrapped''
          new_order_service) = Ack
   \<and> map snd (order_outbox (snd (Start_delivery decode_wrapper decode_order_event decode_damage
          (HandleOrderDamageEvent refusing 7) order_HandleOrderEvent 7 ''wrapped''
          new_order_service))) = [Some ''connection refused'']"
  by (simp add: Start_delivery_def translateMessage_def decode_wrapper_def decode_order_event_def
      decode_damage_def handleOrderDamageEvent_def order_HandleOrderEvent_def
      HandleOrderDamageEvent_def order_FindByID_def order_Save_def order_Update_def
      PublishOrderEvent_def new_order_service_def damage_example_def refusing_def Let_def)

text \<open>
  C6 (amended): for every delivery, with any event handler: the delivery is rejected
  without requeue exactly when its body decodes as a wrapper with topic
  "events/order-damage" whose payload does not decode as a damage event; when the payload
  decodes, the delivery is acked if the damage handler returns no error and rejected with
  requeue if it returns one; a body that does not decode as a wrapper of that topic (a
  body of malformed JSON among them) goes to the order-event handler, which in this
  service returns no error, and is acked. The damage handler of this service returns no
  error whatever the publisher returns, so the ack does not wait for the order event to be
  queued.
\<close>

theorem C6_delivery_acknowledgement:
  "(fst (Start_delivery unmarshalMQTT unmarshalOrderEvent unmarshalDamage handleDamage handleOrder
          now body s) = NackDiscard
      \<longleftrightarrow> (\<exists>m. unmarshalMQTT body = Some m \<and> mq_MqttTopic m = ''events/order-damage''
                \<and> unmarshalDamage (mq_Payload m) = None))
   \<and> (\<forall>m e. unmarshalMQTT body = Some m \<and> mq_MqttTopic m = ''events/order-damage''
          \<and> unmarshalDamage (mq_Payload m) = Some e \<longrightarrow>
        fst (Start_delivery unmarshalMQTT unmarshalOrderEvent unmarshalDamage handleDamage
               handleOrder now body s) =
          (if fst (handleDamage e s) = None then Ack else NackRequeue))
   \<and> ((\<forall>m. unmarshalMQTT body = Some m \<longrightarrow> mq_MqttTopic m \<noteq> ''events/order-damage'') \<longrightarrow>
        Start_delivery unmarshalMQTT unmarshalOrderEvent unmarshalDamage handleDamage'
          order_HandleOrderEvent now body t = (Ack, t))
   \<and> (order_keys_ok (orders t) \<longrightarrow> fst (HandleOrderDamageEvent pub now event t) = None)"
proof -
  have discard: "fst (Start_delivery unmarshalMQTT unmarshalOrderEvent unmarshalDamage handleDamage
          handleOrder now body s) = NackDiscard
      \<longleftrightarrow> (\<exists>m. unmarshalMQTT body = Some m \<and> mq_MqttTopic m = ''events/order-damage''
                \<and> unmarshalDamage (mq_Payload m) = None)"
    by (auto simp: Start_delivery_def translateMessage_def handleOrderDamageEvent_def
        split: option.splits sum.splits translated.splits prod.splits if_splits)
  have damage: "fst (Start_delivery unmarshalMQTT unmarshalOrderEvent unmarshalDamage handleDamage
               handleOrder now body s) =
          (if fst (handleDamage e s) = None then Ack else NackRequeue)"
    if "unmarshalMQTT body = Some m" "mq_MqttTopic m = ''events/order-damage''"
      "unmarshalDamage (mq_Payload m) = Some e" for m e
    using that
    by (auto simp: Start_delivery_def translateMessage_def handleOrderDamageEvent_def
        split: prod.splits option.splits)
  have other: "Start_delivery unmarshalMQTT unmarshalOrderEvent unmarshalDamage handleDamage'
          order_HandleOrderEvent now body t = (Ack, t)"
    if "\<forall>m. unmarshalMQTT body = Some m \<longrightarrow> mq_MqttTopic m \<noteq> ''events/order-damage''"
    using that
    by (auto simp: Start_delivery_def translateMessage_def order_HandleOrderEvent_def
        split: option.splits)
  have handler: "fst (HandleOrderDamageEvent pub now event t) = None" if "order_keys_ok (orders t)"
    using HandleOrderDamageEvent_result [OF that, of pub now event] by (simp add: Let_def)
  from discard damage other handler show ?thesis
    by blast
qed

theorem C6_delivery_acknowledgement_witness:
  "decode_wrapper ''bad payload'' =
      Some \<lparr>mq_MqttTopic = ''events/order-damage'', mq_Payload = ''{'', mq_Timestamp = 0\<rparr>
   \<and> decode_damage ''{'' = None
   \<and> fst (Start_delivery decode_wrapper decode_order_event decode_damage
          (HandleOrderDamageEvent refusing 7) order_HandleOrderEvent 7 ''bad payload''
          new_order_service) = NackDiscard
   \<and> decode_wrapper ''wrapped'' =
      Some \<lparr>mq_MqttTopic = ''events/order-damage'', mq_Payload = ''damage'', mq_Timestamp = 0\<rparr>
   \<and> decode_damage ''damage'' = Some damage_example
   \<and> fst (Start_delivery decode_wrapper decode_order_event decode_damage
          (HandleOrderDamageEvent refusing 7) order_HandleOrderEvent 7 ''wrapped''
          new_order_service) = Ack
   \<and> decode_wrapper ''{not json'' = None
   \<and> Start_delivery decode_wrapper decode_order_event decode_damage
          (HandleOrderDamageEvent refusing 7) order_HandleOrderEvent 7 ''{not json''
          new_order_service = (Ack, new_order_service)
   \<and> order_keys_ok (orders new_order_service)
   \<and> fst (HandleOrderDamageEvent refusing 7 damage_example new_order_service) = None"
proof -
  have ok: "order_keys_ok (orders new_order_service)"
    by (simp add: order_keys_ok_def new_order_service_def)
  have bad: "decode_wrapper ''bad payload'' =
      Some \<lparr>mq_MqttTopic = ''events/order-damage'', mq_Payload = ''{'', mq_Timestamp = 0\<rparr>"
    and bad_payload: "decode_damage ''{'' = None"
    and wrapped: "decode_wrapper ''wrapped'' =
      Some \<lparr>mq_MqttTopic = ''events/order-damage'', mq_Payload = ''damage'', mq_Timestamp = 0\<rparr>"
    and payload: "decode_damage ''damage'' = Some damage_example"
    and garbage: "decode_wrapper ''{not json'' = None"
    by (simp_all add: decode_wrapper_def decode_damage_def)
  note inst = C6_delivery_acknowledgement [where unmarshalMQTT = decode_wrapper
      and unmarshalOrderEvent = decode_order_event and unmarshalDamage = decode_damage
      and handleDamage = "HandleOrderDamageEvent refusing 7"
      and handleDamage' = "HandleOrderDamageEvent refusing 7"
      and handleOrder = order_HandleOrderEvent and now = 7 and s = new_order_service
      and t = new_order_service and pub = refusing and event = damage_example]
  have handler: "fst (HandleOrderDamageEvent refusing 7 damage_example new_order_service) = None"
    using inst [of "''wrapped''"] ok by blast
  have a1: "fst (Start_delivery decode_wrapper decode_order_event decode_damage
          (HandleOrderDamageEvent refusing 7) order_HandleOrderEvent 7 ''bad payload''
          new_order_service) = NackDiscard"
    using inst [of "''bad payload''"] bad bad_payload by simp
  have a2: "fst (Start_delivery decode_wrapper decode_order_event decode_damage
          (HandleOrderDamageEvent refusing 7) order_HandleOrderEvent 7 ''wrapped''
          new_order_service) = Ack"
    using inst [of "''wrapped''"] wrapped payload handler by simp
  have a3: "Start_delivery decode_wrapper decode_order_event decode_damage
          (HandleOrderDamageEvent refusing 7) order_HandleOrderEvent 7 ''{not json''
          new_order_service = (Ack, new_order_service)"
    using inst [of "''{not json''"] garbage by simp
  from ok bad bad_payload wrapped payload garbage handler a1 a2 a3 show ?thesis
    by simp
qed

subsection \<open>Repository and service: how the operations act\<close>

lemma map_filter_set: "set (List.map_filter f xs) = {y. \<exists>x \<in> set xs. f x = Some y}"
  by (induction xs) (auto simp: List.map_filter_simps split: option.splits)

lemma in_range_batches: "b \<in> set (range_batches ks r) \<longleftrightarrow> (\<exists>k \<in> set ks. r k = Some b)"
  by (auto simp: range_batches_def map_filter_set)

lemma FindByOrderID_InrD:
  assumes "FindByOrderID ks r orderID = Inr b"
  shows "\<exists>k. r k = Some b" and "HasOrder b orderID"
  using assms
  by (auto simp: FindByOrderID_def in_range_batches split: option.splits dest!: find_SomeD)


lemma FindPending_InrD:
  assumes "FindPendingBatchForProduct ks r productID = Inr b"
  shows "\<exists>k. r k = Some b" and "ProductID b = productID" and "Status b = BatchStatusPending"
  using assms
  by (auto simp: FindPendingBatchForProduct_def in_range_batches split: option.splits
      dest!: find_SomeD)

lemma FindPending_InlD:
  assumes "FindPendingBatchForProduct ks r productID = Inl e" and "range_order ks r"
    and "r k = Some b"
  shows "ProductID b \<noteq> productID \<or> Status b \<noteq> BatchStatusPending"
proof -
  from assms(2,3) have "b \<in> set (range_batches ks r)"
    by (auto simp: in_range_batches range_order_def)
  with assms(1) show ?thesis
    by (auto simp: FindPendingBatchForProduct_def find_None_iff split: option.splits)
qed

lemma update_first_products:
  assumes "update_first orderID f items = Some items'"
    and "\<And>i. it_ProductID (f i) = it_ProductID i"
    and "list_all (\<lambda>i. it_ProductID i = p) items"
  shows "list_all (\<lambda>i. it_ProductID i = p) items'"
  using assms by (induction items arbitrary: items') (auto split: if_splits)

lemma remove_first_products:
  assumes "remove_first orderID items = Some items'"
    and "list_all (\<lambda>i. it_ProductID i = p) items"
  shows "list_all (\<lambda>i. it_ProductID i = p) items'"
  using assms by (induction items arbitrary: items') (auto split: if_splits)

lemma AddItem_InrD:
  assumes "AddItem b orderID productID quantity status now = Inr b'"
  shows "ID b' = ID b" and "ProductID b' = ProductID b" and "Status b' = Status b"
    and "productID = ProductID b" and "HasOrder b' orderID"
    and "batch_consistent b \<Longrightarrow> batch_consistent b'"
proof -
  let ?f = "\<lambda>item. item\<lparr>it_Quantity := quantity, it_Status := status, it_AddedAt := now\<rparr>"
  from assms have p: "productID = ProductID b"
    by (auto simp: AddItem_def split: if_splits)
  show "productID = ProductID b" by (rule p)
  show "ID b' = ID b" "ProductID b' = ProductID b" "Status b' = Status b"
    using assms by (auto simp: AddItem_def Let_def split: if_splits option.splits)
  show "HasOrder b' orderID"
  proof (cases "update_first orderID ?f (Items b)")
    case None
    with assms show ?thesis
      by (auto simp: AddItem_def Let_def HasOrder_iff split: if_splits)
  next
    case (Some items)
    then have "\<exists>i \<in> set items. it_OrderID i = orderID"
      by (rule update_first_has) simp
    with Some assms show ?thesis
      by (auto simp: AddItem_def Let_def HasOrder_iff split: if_splits)
  qed
  show "batch_consistent b'" if "batch_consistent b"
  proof (cases "update_first orderID ?f (Items b)")
    case None
    with assms that p show ?thesis
      by (auto simp: AddItem_def Let_def batch_consistent_def split: if_splits)
  next
    case (Some items)
    from that have "list_all (\<lambda>i. it_ProductID i = ProductID b) (Items b)"
      by (simp add: batch_consistent_def)
    with update_first_products [OF Some, of "ProductID b"]
    have "list_all (\<lambda>i. it_ProductID i = ProductID b) items"
      by simp
    with Some assms that update_first_length [OF Some] show ?thesis
      by (auto simp: AddItem_def Let_def batch_consistent_def split: if_splits)
  qed
qed

lemma RemoveItem_InrD:
  assumes "RemoveItem b orderID now = Inr b'"
  shows "ID b' = ID b" and "ProductID b' = ProductID b" and "Status b' = Status b"
    and "Status b \<noteq> BatchStatusCompleted"
    and "Suc (length (Items b')) = length (Items b)"
    and "batch_consistent b \<Longrightarrow> batch_consistent b'"
proof -
  from assms obtain items where items: "remove_first orderID (Items b) = Some items"
    and b': "b' = b\<lparr>Items := items, TotalItems := int (length items), UpdatedAt := now\<rparr>"
    and st: "Status b \<noteq> BatchStatusCompleted"
    by (auto simp: RemoveItem_def split: if_splits option.splits)
  show "ID b' = ID b" "ProductID b' = ProductID b" "Status b' = Status b"
    by (simp_all add: b')
  show "Status b \<noteq> BatchStatusCompleted" by (rule st)
  show "Suc (length (Items b')) = length (Items b)"
    using remove_first_length [OF items] by (simp add: b')
  show "batch_consistent b'" if "batch_consistent b"
    using that remove_first_products [OF items, of "ProductID b"]
    by (simp add: batch_consistent_def b')
qed

lemma UpdateItemStatus_InrD:
  assumes "UpdateItemStatus b orderID status now = Inr b'"
  shows "ID b' = ID b" and "ProductID b' = ProductID b" and "Status b' = Status b"
    and "HasOrder b' orderID"
    and "batch_consistent b \<Longrightarrow> batch_consistent b'"
proof -
  let ?f = "\<lambda>item. if status = ''processed'' \<or> status = ''shipped'' \<or> status = ''delivered''
                      then item\<lparr>it_Status := status, it_ProcessedAt := Some now\<rparr>
                      else item\<lparr>it_Status := status\<rparr>"
  from assms obtain items where items: "update_first orderID ?f (Items b) = Some items"
    and b': "b' = b\<lparr>Items := items, UpdatedAt := now\<rparr>"
    by (auto simp: UpdateItemStatus_def split: option.splits)
  show "ID b' = ID b" "ProductID b' = ProductID b" "Status b' = Status b"
    by (simp_all add: b')
  have "\<exists>i \<in> set items. it_OrderID i = orderID"
    using items by (rule update_first_has) simp
  then show "HasOrder b' orderID" by (simp add: HasOrder_iff b')
  show "batch_consistent b'" if "batch_consistent b"
  proof -
    from that have "list_all (\<lambda>i. it_ProductID i = ProductID b) (Items b)"
      by (simp add: batch_consistent_def)
    with update_first_products [OF items, of "ProductID b"]
    have "list_all (\<lambda>i. it_ProductID i = ProductID b) items"
      by simp
    with that update_first_length [OF items] show ?thesis
      by (simp add: batch_consistent_def b')
  qed
qed

lemma UpdateItemStatus_succeeds:
  "HasOrder b orderID \<Longrightarrow> \<exists>b'. UpdateItemStatus b orderID status now = Inr b'"
  by (cases "update_first orderID (\<lambda>item. if status = ''processed'' \<or> status = ''shipped'' \<or> status = ''delivered''
                      then item\<lparr>it_Status := status, it_ProcessedAt := Some now\<rparr>
                      else item\<lparr>it_Status := status\<rparr>) (Items b)")
    (auto simp: UpdateItemStatus_def update_first_None HasOrder_iff)

lemma repo_ok_store:
  assumes "repo_ok r" and "batch_consistent b'"
    and "Status b' = BatchStatusPending \<Longrightarrow>
           \<forall>k b. r k = Some b \<and> ProductID b = ProductID b' \<and> Status b = BatchStatusPending \<longrightarrow> k = ID b'"
  shows "repo_ok (r(ID b' \<mapsto> b'))"
proof -
  let ?r = "r(ID b' \<mapsto> b')"
  from assms(1) have keys: "keys_ok r" and cons: "\<forall>k b. r k = Some b \<longrightarrow> batch_consistent b"
    and one: "one_pending_per_product r"
    by (simp_all add: repo_ok_def repo_invariant_def)
  have "keys_ok ?r"
    using keys by (simp add: keys_ok_def)
  moreover have "\<forall>k b. ?r k = Some b \<longrightarrow> batch_consistent b"
    using cons assms(2) by simp
  moreover have "one_pending_per_product ?r"
    unfolding one_pending_per_product_def
  proof (intro allI impI)
    fix k k' b c
    assume h: "?r k = Some b \<and> ?r k' = Some c \<and> ProductID b = ProductID c
        \<and> Status b = BatchStatusPending \<and> Status c = BatchStatusPending"
    show "k = k'"
    proof (cases "k = ID b'")
      case True
      show ?thesis
      proof (cases "k' = ID b'")
        case True
        with \<open>k = ID b'\<close> show ?thesis by simp
      next
        case False
        with h True have "b = b'" and "r k' = Some c" by simp_all
        with h assms(3) have "k' = ID b'" by metis
        with False show ?thesis by simp
      qed
    next
      case False
      show ?thesis
      proof (cases "k' = ID b'")
        case True
        with h False have "c = b'" and "r k = Some b" by simp_all
        with h assms(3) have "k = ID b'" by metis
        with False show ?thesis by simp
      next
        case k': False
        with h False have "r k = Some b" and "r k' = Some c" by simp_all
        with h one show ?thesis
          unfolding one_pending_per_product_def by blast
      qed
    qed
  qed
  ultimately show ?thesis
    by (simp add: repo_ok_def repo_invariant_def)
qed

lemma repo_ok_delete:
  assumes "repo_ok r"
  shows "repo_ok (r(k := None))"
proof -
  from assms have keys: "keys_ok r" and cons: "\<forall>k b. r k = Some b \<longrightarrow> batch_consistent b"
    and one: "one_pending_per_product r"
    by (simp_all add: repo_ok_def repo_invariant_def)
  have sub: "r j = Some b" if "(r(k := None)) j = Some b" for j b
    using that by (simp split: if_splits)
  have "keys_ok (r(k := None))"
    unfolding keys_ok_def using keys sub unfolding keys_ok_def by blast
  moreover have "\<forall>j b. (r(k := None)) j = Some b \<longrightarrow> batch_consistent b"
    using cons sub by blast
  moreover have "one_pending_per_product (r(k := None))"
    unfolding one_pending_per_product_def
  proof (intro allI impI)
    fix j j' b c
    assume h: "(r(k := None)) j = Some b \<and> (r(k := None)) j' = Some c \<and> ProductID b = ProductID c
        \<and> Status b = BatchStatusPending \<and> Status c = BatchStatusPending"
    then have "r j = Some b" and "r j' = Some c" by (simp_all add: sub)
    with h one show "j = j'"
      unfolding one_pending_per_product_def by blast
  qed
  ultimately show ?thesis
    by (simp add: repo_ok_def repo_invariant_def)
qed

lemma repo_ok_replace:
  assumes "repo_ok r" and "r k = Some b" and "ID b' = ID b" and "ProductID b' = ProductID b"
    and "Status b' = BatchStatusPending \<Longrightarrow> Status b = BatchStatusPending"
    and "batch_consistent b'"
  shows "repo_ok (r(ID b' \<mapsto> b'))"
proof (rule repo_ok_store [OF assms(1) assms(6)])
  assume pending: "Status b' = BatchStatusPending"
  from assms(1,2) have k: "k = ID b" by (auto simp: repo_ok_def keys_ok_def)
  show "\<forall>k b. r k = Some b \<and> ProductID b = ProductID b' \<and> Status b = BatchStatusPending \<longrightarrow> k = ID b'"
  proof (intro allI impI)
    fix k2 b2
    assume "r k2 = Some b2 \<and> ProductID b2 = ProductID b' \<and> Status b2 = BatchStatusPending"
    then have b2: "r k2 = Some b2" "ProductID b2 = ProductID b" "Status b2 = BatchStatusPending"
      using assms(4) by simp_all
    from assms(1) have "one_pending_per_product r"
      by (simp add: repo_ok_def repo_invariant_def)
    with b2 assms(2) assms(5) [OF pending] have "k2 = k"
      unfolding one_pending_per_product_def by blast
    with k assms(3) show "k2 = ID b'" by simp
  qed
qed


lemma AddItem_succeeds:
  assumes "ProductID b = productID" and "Status b = BatchStatusPending"
  shows "\<exists>b'. AddItem b orderID productID quantity status now = Inr b'"
  using assms by (simp add: AddItem_def Let_def split: option.splits)

lemma AddOrderToBatch_result:
  "\<exists>b. fst (AddOrderToBatch pub ks now stamp orderID productID quantity status s) = Inr b
       \<and> repo (snd (AddOrderToBatch pub ks now stamp orderID productID quantity status s)) =
           (repo s)(ID b \<mapsto> b)
       \<and> AddItem (case FindPendingBatchForProduct ks (repo s) productID of
                    Inl e \<Rightarrow> NewBatch (generateBatchID productID stamp) productID now
                  | Inr found \<Rightarrow> found) orderID productID quantity status now = Inr b"
proof (cases "FindPendingBatchForProduct ks (repo s) productID")
  case (Inl e)
  have "\<exists>b'. AddItem (NewBatch (generateBatchID productID stamp) productID now) orderID productID
      quantity status now = Inr b'"
    by (rule AddItem_succeeds) (simp_all add: NewBatch_def)
  then obtain b' where "AddItem (NewBatch (generateBatchID productID stamp) productID now) orderID
      productID quantity status now = Inr b'" ..
  with Inl show ?thesis
    by (simp add: AddOrderToBatch_def Save_def Let_def split: sum.splits)
next
  case (Inr found)
  from FindPending_InrD [OF Inr] have "ProductID found = productID" "Status found = BatchStatusPending"
    by simp_all
  then have "\<exists>b'. AddItem found orderID productID quantity status now = Inr b'"
    by (rule AddItem_succeeds)
  then obtain b' where "AddItem found orderID productID quantity status now = Inr b'" ..
  with Inr show ?thesis
    by (simp add: AddOrderToBatch_def Save_def Let_def split: sum.splits)
qed

lemma NewBatch_consistent: "batch_consistent (NewBatch batchID productID now)"
  by (simp add: NewBatch_def batch_consistent_def)

lemma AddOrderToBatch_ok:
  assumes "repo_ok (repo s)" and "range_order ks (repo s)"
  shows "repo_ok (repo (snd (AddOrderToBatch pub ks now stamp orderID productID quantity status s)))"
proof -
  let ?start = "case FindPendingBatchForProduct ks (repo s) productID of
                    Inl e \<Rightarrow> NewBatch (generateBatchID productID stamp) productID now
                  | Inr found \<Rightarrow> found"
  from AddOrderToBatch_result [of pub ks now stamp orderID productID quantity status s]
  obtain b where r: "repo (snd (AddOrderToBatch pub ks now stamp orderID productID quantity status s)) =
           (repo s)(ID b \<mapsto> b)"
    and add: "AddItem ?start orderID productID quantity status now = Inr b"
    by blast
  note d = AddItem_InrD [OF add]
  show ?thesis
  proof (cases "FindPendingBatchForProduct ks (repo s) productID")
    case (Inl e)
    then have start: "?start = NewBatch (generateBatchID productID stamp) productID now" by simp
    have cons: "batch_consistent b"
      using d(6) start NewBatch_consistent by simp
    have "repo_ok ((repo s)(ID b \<mapsto> b))"
    proof (rule repo_ok_store [OF assms(1) cons], intro allI impI)
      fix k c
      assume "repo s k = Some c \<and> ProductID c = ProductID b \<and> Status c = BatchStatusPending"
      moreover have "ProductID b = productID" using d(2,4) by simp
      ultimately show "k = ID b"
        using FindPending_InlD [OF Inl assms(2), of k c] by simp
    qed
    with r show ?thesis by simp
  next
    case (Inr found)
    then have start: "?start = found" by simp
    from FindPending_InrD(1) [OF Inr] obtain k where k: "repo s k = Some found" ..
    with assms(1) have "batch_consistent found"
      by (auto simp: repo_ok_def repo_invariant_def)
    with d(6) start have cons: "batch_consistent b" by simp
    have "repo_ok ((repo s)(ID b \<mapsto> b))"
      using d(1,2,3) start by (intro repo_ok_replace [OF assms(1) k _ _ _ cons]) simp_all
    with r show ?thesis by simp
  qed
qed

lemma RemoveOrderFromBatch_ok:
  assumes "repo_ok (repo s)"
  shows "repo_ok (repo (snd (RemoveOrderFromBatch pub ks now orderID s)))"
proof (cases "FindByOrderID ks (repo s) orderID")
  case (Inl e)
  with assms show ?thesis by (simp add: RemoveOrderFromBatch_def)
next
  case (Inr b)
  from FindByOrderID_InrD(1) [OF Inr] obtain k where k: "repo s k = Some b" ..
  with assms have cons: "batch_consistent b" by (auto simp: repo_ok_def repo_invariant_def)
  show ?thesis
  proof (cases "RemoveItem b orderID now")
    case (Inl e)
    with Inr assms show ?thesis by (simp add: RemoveOrderFromBatch_def)
  next
    case inr: (Inr b')
    note d = RemoveItem_InrD [OF inr]
    have "repo_ok ((repo s)(ID b' \<mapsto> b'))"
      using d(1,2,3) d(6) [OF cons] by (intro repo_ok_replace [OF assms k]) simp_all
    moreover have "repo_ok ((repo s)(ID b' := None))"
      using assms by (rule repo_ok_delete)
    ultimately show ?thesis
      using Inr inr assms
      by (simp add: RemoveOrderFromBatch_def Save_def Delete_def Let_def)
  qed
qed

lemma UpdateOrderStatus_ok:
  assumes "repo_ok (repo s)"
  shows "repo_ok (repo (snd (UpdateOrderStatus pub ks now orderID status s)))"
proof (cases "FindByOrderID ks (repo s) orderID")
  case (Inl e)
  with assms show ?thesis by (simp add: UpdateOrderStatus_def)
next
  case (Inr b)
  from FindByOrderID_InrD(1) [OF Inr] obtain k where k: "repo s k = Some b" ..
  with assms have cons: "batch_consistent b" by (auto simp: repo_ok_def repo_invariant_def)
  show ?thesis
  proof (cases "UpdateItemStatus b orderID status now")
    case (Inl e)
    with Inr assms show ?thesis by (simp add: UpdateOrderStatus_def)
  next
    case inr: (Inr b')
    note d = UpdateItemStatus_InrD [OF inr]
    have "repo_ok ((repo s)(ID b' \<mapsto> b'))"
      using d(1,2,3) d(5) [OF cons] by (intro repo_ok_replace [OF assms k]) simp_all
    then show ?thesis
      using Inr inr
      by (simp add: UpdateOrderStatus_def Save_def Let_def)
  qed
qed

lemma transition_ok:
  assumes "repo_ok (repo s)"
    and "\<And>b b'. method b now = Inr b' \<Longrightarrow>
           ID b' = ID b \<and> ProductID b' = ProductID b \<and> Items b' = Items b \<and> TotalItems b' = TotalItems b
           \<and> (Status b' = BatchStatusPending \<longrightarrow> Status b = BatchStatusPending)"
  shows "repo_ok (repo (snd (transition method failed event pub now batchID s)))"
proof (cases "repo s batchID")
  case None
  with assms(1) show ?thesis by (simp add: transition_def FindByID_def)
next
  case (Some b)
  with assms(1) have cons: "batch_consistent b" by (auto simp: repo_ok_def repo_invariant_def)
  show ?thesis
  proof (cases "method b now")
    case (Inl e)
    with Some assms(1) show ?thesis by (simp add: transition_def FindByID_def)
  next
    case (Inr b')
    note d = assms(2) [OF Inr]
    from d cons have "batch_consistent b'" by (simp add: batch_consistent_def)
    then have "repo_ok ((repo s)(ID b' \<mapsto> b'))"
      using d by (intro repo_ok_replace [OF assms(1) Some]) simp_all
    with Some Inr show ?thesis
      by (simp add: transition_def FindByID_def Save_def)
  qed
qed

lemma exec_ok:
  assumes "repo_ok (repo s)" and "range_order ks (repo s)"
  shows "repo_ok (repo (exec pub ks now stamp operation s))"
proof (cases operation)
  case (OpAddOrderToBatch orderID productID quantity status)
  with AddOrderToBatch_ok [OF assms] show ?thesis by (simp add: exec_def)
next
  case (OpRemoveOrderFromBatch orderID)
  with RemoveOrderFromBatch_ok [OF assms(1)] show ?thesis by (simp add: exec_def)
next
  case (OpUpdateOrderStatus orderID status)
  with UpdateOrderStatus_ok [OF assms(1)] show ?thesis by (simp add: exec_def)
next
  case (OpProcessBatch batchID)
  have "repo_ok (repo (snd (transition StartProcessing ''failed to start processing batch: ''
      NewBatchProcessingStartedEvent pub now batchID s)))"
    by (rule transition_ok [OF assms(1)]) (auto simp: StartProcessing_def split: if_splits)
  with OpProcessBatch show ?thesis by (simp add: exec_def ProcessBatch_def)
next
  case (OpCompleteBatch batchID)
  have "repo_ok (repo (snd (transition Complete ''failed to complete batch: ''
      NewBatchCompletedEvent pub now batchID s)))"
    by (rule transition_ok [OF assms(1)]) (auto simp: Complete_def split: if_splits)
  with OpCompleteBatch show ?thesis by (simp add: exec_def CompleteBatch_def)
next
  case (OpCancelBatch batchID)
  have "repo_ok (repo (snd (transition Cancel ''failed to cancel batch: ''
      NewBatchCancelledEvent pub now batchID s)))"
    by (rule transition_ok [OF assms(1)]) (auto simp: Cancel_def split: if_splits)
  with OpCancelBatch show ?thesis by (simp add: exec_def CancelBatch_def)
next
  case (OpMarkBatchAsDamaged batchID)
  have "repo_ok (repo (snd (transition MarkAsDamaged ''failed to mark batch as damaged: ''
      NewBatchDamagedEvent pub now batchID s)))"
    by (rule transition_ok [OF assms(1)]) (auto simp: MarkAsDamaged_def split: if_splits)
  with OpMarkBatchAsDamaged show ?thesis by (simp add: exec_def MarkBatchAsDamaged_def)
qed

lemma reachable_ok: "reachable s \<Longrightarrow> repo_ok (repo s)"
proof (induction rule: reachable.induct)
  case start
  show ?case
    by (simp add: new_service_def repo_ok_def keys_ok_def repo_invariant_def
        one_pending_per_product_def)
next
  case (step s ks pub now stamp operation)
  then show ?case by (simp add: exec_ok)
qed


subsection \<open>The example states\<close>

lemmas eval_service =
  exec_def AddOrderToBatch_def RemoveOrderFromBatch_def UpdateOrderStatus_def transition_def
  ProcessBatch_def CompleteBatch_def CancelBatch_def MarkBatchAsDamaged_def
  FindPendingBatchForProduct_def FindByOrderID_def FindByID_def Save_def Delete_def
  range_batches_def List.map_filter_simps NewBatch_def generateBatchID_def AddItem_def
  RemoveItem_def UpdateItemStatus_def StartProcessing_def Complete_def Cancel_def
  MarkAsDamaged_def GetItemByOrderID_def HasOrder_def IsEmpty_def publish_def new_service_def
  Let_def

lemma repo_created_store:
  "repo created_store =
     Map.empty(''BATCH-p1-20250101000000'' \<mapsto> damaged_example\<lparr>Status := BatchStatusPending, UpdatedAt := 1\<rparr>)"
  by (simp add: created_store_def damaged_example_def eval_service)

lemma repo_damaged_store:
  "repo damaged_store = Map.empty(''BATCH-p1-20250101000000'' \<mapsto> damaged_example)"
  by (simp add: damaged_store_def repo_created_store damaged_example_def
      exec_def MarkBatchAsDamaged_def transition_def FindByID_def MarkAsDamaged_def Save_def)

lemma repo_cancelled_store:
  "repo cancelled_store =
     Map.empty(''BATCH-p1-20250101000000'' \<mapsto> damaged_example\<lparr>Status := BatchStatusCancelled\<rparr>)"
  by (simp add: cancelled_store_def repo_created_store damaged_example_def
      exec_def CancelBatch_def transition_def FindByID_def Cancel_def Save_def)

lemma repo_completed_store:
  "repo completed_store =
     Map.empty(''BATCH-p1-20250101000000'' \<mapsto>
       damaged_example\<lparr>Status := BatchStatusCompleted, UpdatedAt := 3, ProcessedAt := Some 3\<rparr>)"
  by (simp add: completed_store_def repo_created_store damaged_example_def
      exec_def ProcessBatch_def CompleteBatch_def transition_def FindByID_def StartProcessing_def
      Complete_def Save_def)

lemma reachable_created_store: "reachable created_store"
  unfolding created_store_def
  by (rule reachable.step [OF reachable.start]) (simp add: range_order_def new_service_def)

lemma range_order_created: "range_order [''BATCH-p1-20250101000000''] (repo created_store)"
  by (simp add: range_order_def repo_created_store)

lemma reachable_damaged_store: "reachable damaged_store"
  unfolding damaged_store_def
  by (rule reachable.step [OF reachable_created_store range_order_created])

lemma reachable_cancelled_store: "reachable cancelled_store"
  unfolding cancelled_store_def
  by (rule reachable.step [OF reachable_created_store range_order_created])

lemma reachable_completed_store: "reachable completed_store"
  unfolding completed_store_def
proof (rule reachable.step)
  show "reachable (exec accepting [''BATCH-p1-20250101000000''] 2 ''20250101000001''
          (OpProcessBatch ''BATCH-p1-20250101000000'') created_store)"
    by (rule reachable.step [OF reachable_created_store range_order_created])
  show "range_order [''BATCH-p1-20250101000000'']
          (repo (exec accepting [''BATCH-p1-20250101000000''] 2 ''20250101000001''
             (OpProcessBatch ''BATCH-p1-20250101000000'') created_store))"
    by (simp add: range_order_def repo_created_store exec_def ProcessBatch_def transition_def
        FindByID_def StartProcessing_def Save_def damaged_example_def)
qed

subsection \<open>Invariants of the batch service\<close>

text \<open>
  C3: every state reachable through the seven operations of the batch service satisfies
  the invariant: in every stored batch each item has the batch's product id and
  \<open>TotalItems\<close> is the number of items, and no two stored batches of one product are
  pending.
\<close>

theorem C3_reachable_invariant: "reachable s \<Longrightarrow> repo_invariant (repo s)"
  using reachable_ok [of s] by (simp add: repo_ok_def)

theorem C3_reachable_invariant_witness:
  "reachable completed_store \<and> repo_invariant (repo completed_store)
   \<and> reachable created_store \<and> repo_invariant (repo created_store)"
  using reachable_completed_store C3_reachable_invariant [OF reachable_completed_store]
    reachable_created_store C3_reachable_invariant [OF reachable_created_store]
  by simp

subsection \<open>Removal of the last item\<close>

text \<open>
  C5, as stated, keeps a cancelled or damaged batch as an empty record when its last item
  is removed. The damaged batch and the cancelled batch of the examples hold one order;
  removing it succeeds and the batch is no longer in the repository.
\<close>

theorem C5_terminal_batch_deleted_counterexample:
  "FindByID (repo damaged_store) ''BATCH-p1-20250101000000'' = Inr damaged_example
   \<and> Status damaged_example = BatchStatusDamaged
   \<and> fst (RemoveOrderFromBatch accepting [''BATCH-p1-20250101000000''] 9 ''o1'' damaged_store) = None
   \<and> FindByID (repo (snd (RemoveOrderFromBatch accepting [''BATCH-p1-20250101000000''] 9 ''o1''
        damaged_store))) ''BATCH-p1-20250101000000'' = Inl ''batch with ID BATCH-p1-20250101000000 not found''
   \<and> FindByID (repo cancelled_store) ''BATCH-p1-20250101000000'' =
        Inr (damaged_example\<lparr>Status := BatchStatusCancelled\<rparr>)
   \<and> fst (RemoveOrderFromBatch accepting [''BATCH-p1-20250101000000''] 9 ''o1'' cancelled_store) = None
   \<and> FindByID (repo (snd (RemoveOrderFromBatch accepting [''BATCH-p1-20250101000000''] 9 ''o1''
        cancelled_store))) ''BATCH-p1-20250101000000'' = Inl ''batch with ID BATCH-p1-20250101000000 not found''"
  by (simp add: RemoveOrderFromBatch_def FindByOrderID_def range_batches_def List.map_filter_simps
      HasOrder_def GetItemByOrderID_def RemoveItem_def IsEmpty_def Delete_def FindByID_def
      repo_damaged_store repo_cancelled_store damaged_example_def publish_def Let_def)

text \<open>
  C5 (amended): in a reachable state, when the order is the only item of the batch that
  \<open>RemoveOrderFromBatch\<close> finds for it: if the batch is not completed (it is pending,
  processing, cancelled or damaged) the removal succeeds and the batch is deleted from the
  repository; if the batch is completed the removal fails with a domain error and the
  state is unchanged, the batch keeping its item.
\<close>

theorem C5_last_item_removed:
  assumes "reachable s" and "FindByOrderID ks (repo s) orderID = Inr b"
    and "length (Items b) = 1"
  shows "(Status b \<noteq> BatchStatusCompleted \<longrightarrow>
            fst (RemoveOrderFromBatch pub ks now orderID s) = None
            \<and> repo (snd (RemoveOrderFromBatch pub ks now orderID s)) = (repo s)(ID b := None))
       \<and> (Status b = BatchStatusCompleted \<longrightarrow>
            RemoveOrderFromBatch pub ks now orderID s =
              (Some ''failed to remove order from batch: cannot remove items from completed batch'', s))"
proof -
  from FindByOrderID_InrD [OF assms(2)] obtain k where k: "repo s k = Some b"
    and has: "HasOrder b orderID" by blast
  from reachable_ok [OF assms(1)] have "keys_ok (repo s)" by (simp add: repo_ok_def)
  with k have stored: "repo s (ID b) = Some b" by (auto simp: keys_ok_def)
  from assms(3) obtain i where items: "Items b = [i]"
    by (cases "Items b") simp_all
  with has have "it_OrderID i = orderID" by (simp add: HasOrder_iff)
  with items have removed: "remove_first orderID (Items b) = Some []" by simp
  show ?thesis
    using assms(2) removed stored
    by (simp add: RemoveOrderFromBatch_def RemoveItem_def IsEmpty_def Delete_def Let_def)
qed


theorem C5_last_item_removed_witness:
  "reachable damaged_store
   \<and> FindByOrderID [''BATCH-p1-20250101000000''] (repo damaged_store) ''o1'' = Inr damaged_example
   \<and> length (Items damaged_example) = 1
   \<and> Status damaged_example \<noteq> BatchStatusCompleted
   \<and> fst (RemoveOrderFromBatch accepting [''BATCH-p1-20250101000000''] 9 ''o1'' damaged_store) = None
   \<and> repo (snd (RemoveOrderFromBatch accepting [''BATCH-p1-20250101000000''] 9 ''o1'' damaged_store)) =
       (repo damaged_store)(ID damaged_example := None)
   \<and> reachable completed_store
   \<and> FindByOrderID [''BATCH-p1-20250101000000''] (repo completed_store) ''o1'' =
       Inr (damaged_example\<lparr>Status := BatchStatusCompleted, UpdatedAt := 3, ProcessedAt := Some 3\<rparr>)
   \<and> RemoveOrderFromBatch accepting [''BATCH-p1-20250101000000''] 9 ''o1'' completed_store =
       (Some ''failed to remove order from batch: cannot remove items from completed batch'',
        completed_store)"
proof -
  have f1: "FindByOrderID [''BATCH-p1-20250101000000''] (repo damaged_store) ''o1'' = Inr damaged_example"
    by (simp add: FindByOrderID_def range_batches_def List.map_filter_simps repo_damaged_store
        HasOrder_def GetItemByOrderID_def damaged_example_def)
  have l1: "length (Items damaged_example) = 1" and s1: "Status damaged_example \<noteq> BatchStatusCompleted"
    by (simp_all add: damaged_example_def)
  let ?c = "damaged_example\<lparr>Status := BatchStatusCompleted, UpdatedAt := 3, ProcessedAt := Some 3\<rparr>"
  have f2: "FindByOrderID [''BATCH-p1-20250101000000''] (repo completed_store) ''o1'' = Inr ?c"
    by (simp add: FindByOrderID_def range_batches_def List.map_filter_simps repo_completed_store
        HasOrder_def GetItemByOrderID_def damaged_example_def)
  have l2: "length (Items ?c) = 1" by (simp add: damaged_example_def)
  from C5_last_item_removed [OF reachable_damaged_store f1 l1, of accepting 9]
    C5_last_item_removed [OF reachable_completed_store f2 l2, of accepting 9]
    reachable_damaged_store reachable_completed_store f1 f2 l1 s1
  show ?thesis by simp
qed

subsection \<open>One item for each order of a batch\<close>

lemma update_first_ids:
  assumes "update_first orderID f items = Some items'" and "\<And>i. it_OrderID (f i) = it_OrderID i"
  shows "map it_OrderID items' = map it_OrderID items"
  using assms(1) by (induction items arbitrary: items') (auto simp: assms(2) split: if_splits)

lemma rewrite_items_absent:
  "\<forall>i \<in> set items. it_OrderID i \<noteq> orderID \<Longrightarrow> rewrite_items orderID f items = items"
  by (induction items) (simp_all add: rewrite_items_def)

lemma update_first_rewrite:
  assumes "update_first orderID f items = Some items'" and "distinct (map it_OrderID items)"
  shows "items' = rewrite_items orderID f items"
  using assms
proof (induction items arbitrary: items')
  case Nil
  then show ?case by simp
next
  case (Cons a items)
  show ?case
  proof (cases "it_OrderID a = orderID")
    case True
    with Cons.prems have "items' = f a # items" and "\<forall>i \<in> set items. it_OrderID i \<noteq> orderID"
      by (auto simp: image_iff)
    with True rewrite_items_absent [of items orderID f] show ?thesis
      by (simp add: rewrite_items_def)
  next
    case False
    with Cons.prems obtain rest where rest: "update_first orderID f items = Some rest"
      and items': "items' = a # rest" by auto
    from Cons.IH [OF rest] Cons.prems(2) False items' show ?thesis
      by (simp add: rewrite_items_def)
  qed
qed

lemma find_filter_distinct:
  assumes "find (\<lambda>i. it_OrderID i = orderID) items = Some i" and "distinct (map it_OrderID items)"
  shows "filter (\<lambda>i. it_OrderID i = orderID) items = [i]"
  using assms
proof (induction items)
  case Nil
  then show ?case by simp
next
  case (Cons a items)
  show ?case
  proof (cases "it_OrderID a = orderID")
    case True
    with Cons.prems have "a = i" and "\<forall>j \<in> set items. it_OrderID j \<noteq> orderID"
      by (auto simp: image_iff)
    with True show ?thesis by (simp add: filter_empty_conv)
  next
    case False
    with Cons show ?thesis by simp
  qed
qed

lemma remove_first_subset:
  "remove_first orderID items = Some items' \<Longrightarrow> set items' \<subseteq> set items"
  by (induction items arbitrary: items') (auto split: if_splits)

lemma remove_first_distinct:
  assumes "remove_first orderID items = Some items'" and "distinct (map it_OrderID items)"
  shows "distinct (map it_OrderID items')"
  using assms
proof (induction items arbitrary: items')
  case Nil
  then show ?case by simp
next
  case (Cons a items)
  show ?case
  proof (cases "it_OrderID a = orderID")
    case True
    with Cons.prems show ?thesis by simp
  next
    case False
    with Cons.prems obtain rest where rest: "remove_first orderID items = Some rest"
      and items': "items' = a # rest" by auto
    from remove_first_subset [OF rest] Cons.prems(2)
    have "it_OrderID a \<notin> it_OrderID ` set rest" by auto
    with Cons.IH [OF rest] Cons.prems(2) items' show ?thesis by simp
  qed
qed

lemma AddItem_distinct:
  assumes "AddItem b orderID productID quantity status now = Inr b'" and "items_distinct b"
  shows "items_distinct b'"
proof (cases "update_first orderID
    (\<lambda>item. item\<lparr>it_Quantity := quantity, it_Status := status, it_AddedAt := now\<rparr>) (Items b)")
  case None
  then have "\<forall>i \<in> set (Items b). it_OrderID i \<noteq> orderID"
    by (simp add: update_first_None)
  with None assms show ?thesis
    by (auto simp: AddItem_def Let_def items_distinct_def split: if_splits)
next
  case (Some items)
  from update_first_ids [OF Some] have "map it_OrderID items = map it_OrderID (Items b)"
    by simp
  with Some assms show ?thesis
    by (auto simp: AddItem_def Let_def items_distinct_def split: if_splits)
qed

lemma UpdateItemStatus_distinct:
  assumes "UpdateItemStatus b orderID status now = Inr b'" and "items_distinct b"
  shows "items_distinct b'"
proof -
  let ?f = "\<lambda>item. if status = ''processed'' \<or> status = ''shipped'' \<or> status = ''delivered''
                      then item\<lparr>it_Status := status, it_ProcessedAt := Some now\<rparr>
                      else item\<lparr>it_Status := status\<rparr>"
  from assms(1) obtain items where items: "update_first orderID ?f (Items b) = Some items"
    and b': "b' = b\<lparr>Items := items, UpdatedAt := now\<rparr>"
    by (auto simp: UpdateItemStatus_def split: option.splits)
  from update_first_ids [OF items] have "map it_OrderID items = map it_OrderID (Items b)"
    by simp
  with assms(2) show ?thesis by (simp add: items_distinct_def b')
qed

lemma RemoveItem_distinct:
  assumes "RemoveItem b orderID now = Inr b'" and "items_distinct b"
  shows "items_distinct b'"
proof -
  from assms(1) obtain items where items: "remove_first orderID (Items b) = Some items"
    and b': "b' = b\<lparr>Items := items, TotalItems := int (length items), UpdatedAt := now\<rparr>"
    by (auto simp: RemoveItem_def split: if_splits option.splits)
  from remove_first_distinct [OF items] assms(2) show ?thesis
    by (simp add: items_distinct_def b')
qed

lemma repo_distinct_store: "repo_distinct r \<Longrightarrow> items_distinct b \<Longrightarrow> repo_distinct (r(k \<mapsto> b))"
  by (simp add: repo_distinct_def)

lemma repo_distinct_delete: "repo_distinct r \<Longrightarrow> repo_distinct (r(k := None))"
  by (simp add: repo_distinct_def)

lemma AddOrderToBatch_distinct:
  assumes "repo_distinct (repo s)"
  shows "repo_distinct (repo (snd (AddOrderToBatch pub ks now stamp orderID productID quantity status s)))"
proof -
  let ?start = "case FindPendingBatchForProduct ks (repo s) productID of
                    Inl e \<Rightarrow> NewBatch (generateBatchID productID stamp) productID now
                  | Inr found \<Rightarrow> found"
  from AddOrderToBatch_result [of pub ks now stamp orderID productID quantity status s]
  obtain b where r: "repo (snd (AddOrderToBatch pub ks now stamp orderID productID quantity status s)) =
           (repo s)(ID b \<mapsto> b)"
    and add: "AddItem ?start orderID productID quantity status now = Inr b"
    by blast
  have "items_distinct ?start"
  proof (cases "FindPendingBatchForProduct ks (repo s) productID")
    case (Inl e)
    then show ?thesis by (simp add: NewBatch_def items_distinct_def)
  next
    case (Inr found)
    from FindPending_InrD(1) [OF Inr] assms Inr show ?thesis
      by (auto simp: repo_distinct_def)
  qed
  with add have "items_distinct b" by (rule AddItem_distinct)
  with assms r show ?thesis by (simp add: repo_distinct_store)
qed

lemma UpdateOrderStatus_distinct:
  assumes "repo_distinct (repo s)"
  shows "repo_distinct (repo (snd (UpdateOrderStatus pub ks now orderID status s)))"
proof (cases "FindByOrderID ks (repo s) orderID")
  case (Inl e)
  with assms show ?thesis by (simp add: UpdateOrderStatus_def)
next
  case (Inr b)
  from FindByOrderID_InrD(1) [OF Inr] assms have b: "items_distinct b"
    by (auto simp: repo_distinct_def)
  show ?thesis
  proof (cases "UpdateItemStatus b orderID status now")
    case (Inl e)
    with Inr assms show ?thesis by (simp add: UpdateOrderStatus_def)
  next
    case inr: (Inr b')
    from UpdateItemStatus_distinct [OF inr b] assms
    have "repo_distinct ((repo s)(ID b' \<mapsto> b'))" by (simp add: repo_distinct_store)
    with Inr inr show ?thesis
      by (simp add: UpdateOrderStatus_def Save_def Let_def)
  qed
qed

lemma RemoveOrderFromBatch_distinct:
  assumes "repo_distinct (repo s)"
  shows "repo_distinct (repo (snd (RemoveOrderFromBatch pub ks now orderID s)))"
proof (cases "FindByOrderID ks (repo s) orderID")
  case (Inl e)
  with assms show ?thesis by (simp add: RemoveOrderFromBatch_def)
next
  case (Inr b)
  from FindByOrderID_InrD(1) [OF Inr] assms have b: "items_distinct b"
    by (auto simp: repo_distinct_def)
  show ?thesis
  proof (cases "RemoveItem b orderID now")
    case (Inl e)
    with Inr assms show ?thesis by (simp add: RemoveOrderFromBatch_def)
  next
    case inr: (Inr b')
    from RemoveItem_distinct [OF inr b] assms
    have "repo_distinct ((repo s)(ID b' \<mapsto> b'))" by (simp add: repo_distinct_store)
    moreover from assms have "repo_distinct ((repo s)(ID b' := None))"
      by (rule repo_distinct_delete)
    ultimately show ?thesis
      using Inr inr assms
      by (simp add: RemoveOrderFromBatch_def Save_def Delete_def Let_def)
  qed
qed

lemma transition_distinct:
  assumes "repo_distinct (repo s)"
    and "\<And>b b'. method b now = Inr b' \<Longrightarrow> Items b' = Items b"
  shows "repo_distinct (repo (snd (transition method failed event pub now batchID s)))"
proof (cases "repo s batchID")
  case None
  with assms(1) show ?thesis by (simp add: transition_def FindByID_def)
next
  case (Some b)
  with assms(1) have b: "items_distinct b" by (auto simp: repo_distinct_def)
  show ?thesis
  proof (cases "method b now")
    case (Inl e)
    with Some assms(1) show ?thesis by (simp add: transition_def FindByID_def)
  next
    case (Inr b')
    from assms(2) [OF Inr] b have "items_distinct b'" by (simp add: items_distinct_def)
    with assms(1) have "repo_distinct ((repo s)(ID b' \<mapsto> b'))" by (simp add: repo_distinct_store)
    with Some Inr show ?thesis
      by (simp add: transition_def FindByID_def Save_def)
  qed
qed

lemma exec_distinct:
  assumes "repo_distinct (repo s)"
  shows "repo_distinct (repo (exec pub ks now stamp operation s))"
proof (cases operation)
  case (OpAddOrderToBatch orderID productID quantity status)
  with AddOrderToBatch_distinct [OF assms] show ?thesis by (simp add: exec_def)
next
  case (OpRemoveOrderFromBatch orderID)
  with RemoveOrderFromBatch_distinct [OF assms] show ?thesis by (simp add: exec_def)
next
  case (OpUpdateOrderStatus orderID status)
  with UpdateOrderStatus_distinct [OF assms] show ?thesis by (simp add: exec_def)
next
  case (OpProcessBatch batchID)
  have "repo_distinct (repo (snd (transition StartProcessing ''failed to start processing batch: ''
      NewBatchProcessingStartedEvent pub now batchID s)))"
    by (rule transition_distinct [OF assms]) (auto simp: StartProcessing_def split: if_splits)
  with OpProcessBatch show ?thesis by (simp add: exec_def ProcessBatch_def)
next
  case (OpCompleteBatch batchID)
  have "repo_distinct (repo (snd (transition Complete ''failed to complete batch: ''
      NewBatchCompletedEvent pub now batchID s)))"
    by (rule transition_distinct [OF assms]) (auto simp: Complete_def split: if_splits)
  with OpCompleteBatch show ?thesis by (simp add: exec_def CompleteBatch_def)
next
  case (OpCancelBatch batchID)
  have "repo_distinct (repo (snd (transition Cancel ''failed to cancel batch: ''
      NewBatchCancelledEvent pub now batchID s)))"
    by (rule transition_distinct [OF assms]) (auto simp: Cancel_def split: if_splits)
  with OpCancelBatch show ?thesis by (simp add: exec_def CancelBatch_def)
next
  case (OpMarkBatchAsDamaged batchID)
  have "repo_distinct (repo (snd (transition MarkAsDamaged ''failed to mark batch as damaged: ''
      NewBatchDamagedEvent pub now batchID s)))"
    by (rule transition_distinct [OF assms]) (auto simp: MarkAsDamaged_def split: if_splits)
  with OpMarkBatchAsDamaged show ?thesis by (simp add: exec_def MarkBatchAsDamaged_def)
qed

lemma reachable_distinct: "reachable s \<Longrightarrow> repo_distinct (repo s)"
proof (induction rule: reachable.induct)
  case start
  show ?case by (simp add: new_service_def repo_distinct_def)
next
  case (step s ks pub now stamp operation)
  then show ?case by (simp add: exec_distinct)
qed

subsection \<open>Items of an order\<close>

lemma update_first_find:
  assumes "update_first orderID f items = Some items'" and "\<And>i. it_OrderID (f i) = it_OrderID i"
  shows "\<exists>i. find (\<lambda>i. it_OrderID i = orderID) items = Some i
             \<and> find (\<lambda>i. it_OrderID i = orderID) items' = Some (f i)"
  using assms(1) by (induction items arbitrary: items') (auto simp: assms(2) split: if_splits)

lemma UpdateOrderStatus_found:
  assumes "keys_ok (repo s)" and "FindByOrderID ks (repo s) orderID = Inr b"
  shows "\<exists>b'. UpdateItemStatus b orderID status now = Inr b'
           \<and> fst (UpdateOrderStatus pub ks now orderID status s) = None
           \<and> repo (snd (UpdateOrderStatus pub ks now orderID status s)) = (repo s)(ID b \<mapsto> b')
           \<and> ID b' = ID b \<and> item_status b' orderID = Some status"
proof -
  let ?f = "\<lambda>item. if status = ''processed'' \<or> status = ''shipped'' \<or> status = ''delivered''
                      then item\<lparr>it_Status := status, it_ProcessedAt := Some now\<rparr>
                      else item\<lparr>it_Status := status\<rparr>"
  from FindByOrderID_InrD [OF assms(2)] have has: "HasOrder b orderID" by simp
  from UpdateItemStatus_succeeds [OF has] obtain b' where
    upd: "UpdateItemStatus b orderID status now = Inr b'" by blast
  then obtain items where items: "update_first orderID ?f (Items b) = Some items"
    and b': "b' = b\<lparr>Items := items, UpdatedAt := now\<rparr>"
    by (auto simp: UpdateItemStatus_def split: option.splits)
  have "\<exists>i. find (\<lambda>i. it_OrderID i = orderID) (Items b) = Some i
             \<and> find (\<lambda>i. it_OrderID i = orderID) items = Some (?f i)"
    by (rule update_first_find [OF items]) simp
  then obtain i where
    "find (\<lambda>i. it_OrderID i = orderID) items = Some (?f i)" by blast
  then have st: "item_status b' orderID = Some status"
    by (simp add: item_status_def b')
  from upd assms(2) b' st show ?thesis
    by (simp add: UpdateOrderStatus_def Save_def Let_def)
qed

lemma UpdateOrderStatus_missing:
  assumes "FindByOrderID ks (repo s) orderID = Inl e"
  shows "\<exists>err. UpdateOrderStatus pub ks now orderID status s = (Some err, s)"
  using assms by (simp add: UpdateOrderStatus_def)

lemma find_append_None: "find P xs = None \<Longrightarrow> find P (xs @ ys) = find P ys"
  by (induction xs) (auto split: if_splits)

lemma AddItem_item_status:
  assumes "AddItem b orderID productID quantity status now = Inr b'"
  shows "item_status b' orderID = Some status"
proof -
  let ?f = "\<lambda>item. item\<lparr>it_Quantity := quantity, it_Status := status, it_AddedAt := now\<rparr>"
  show ?thesis
  proof (cases "update_first orderID ?f (Items b)")
    case None
    then have "find (\<lambda>i. it_OrderID i = orderID) (Items b) = None"
      by (simp add: update_first_None find_order_None)
    with None assms show ?thesis
      by (auto simp: AddItem_def Let_def item_status_def find_append_None split: if_splits)
  next
    case (Some items)
    have "\<exists>i. find (\<lambda>i. it_OrderID i = orderID) (Items b) = Some i
             \<and> find (\<lambda>i. it_OrderID i = orderID) items = Some (?f i)"
      by (rule update_first_find [OF Some]) simp
    then obtain i where
      "find (\<lambda>i. it_OrderID i = orderID) items = Some (?f i)" by blast
    with Some assms show ?thesis
      by (auto simp: AddItem_def Let_def item_status_def split: if_splits)
  qed
qed

subsection \<open>Adding the same order twice\<close>

lemma AddItem_item:
  assumes "AddItem b orderID productID quantity status now = Inr b'"
  shows "\<exists>i. find (\<lambda>i. it_OrderID i = orderID) (Items b') = Some i
            \<and> it_Quantity i = quantity \<and> it_Status i = status \<and> it_AddedAt i = now"
proof -
  let ?f = "\<lambda>item. item\<lparr>it_Quantity := quantity, it_Status := status, it_AddedAt := now\<rparr>"
  show ?thesis
  proof (cases "update_first orderID ?f (Items b)")
    case None
    then have "find (\<lambda>i. it_OrderID i = orderID) (Items b) = None"
      by (simp add: update_first_None find_order_None)
    with None assms show ?thesis
      by (auto simp: AddItem_def Let_def find_append_None split: if_splits)
  next
    case (Some items)
    have "\<exists>i. find (\<lambda>i. it_OrderID i = orderID) (Items b) = Some i
             \<and> find (\<lambda>i. it_OrderID i = orderID) items = Some (?f i)"
      by (rule update_first_find [OF Some]) simp
    then obtain i where
      "find (\<lambda>i. it_OrderID i = orderID) items = Some (?f i)" by blast
    with Some assms show ?thesis
      by (auto simp: AddItem_def Let_def split: if_splits)
  qed
qed

lemma AddItem_order_items:
  assumes "AddItem b0 orderID productID quantity status now = Inr b"
    and "items_distinct b" and "batch_consistent b"
  shows "map (\<lambda>i. (it_ProductID i, it_Quantity i, it_Status i, it_AddedAt i)) (order_items b orderID) =
           [(productID, quantity, status, now)]"
proof -
  from AddItem_item [OF assms(1)] obtain i where
    found: "find (\<lambda>i. it_OrderID i = orderID) (Items b) = Some i"
    and i: "it_Quantity i = quantity" "it_Status i = status" "it_AddedAt i = now"
    by blast
  from found assms(2) have items: "order_items b orderID = [i]"
    unfolding order_items_def items_distinct_def by (rule find_filter_distinct)
  from find_SomeD [OF found] have "i \<in> set (Items b)" by simp
  with assms(3) have "it_ProductID i = ProductID b"
    by (simp add: batch_consistent_def list_all_iff)
  with AddItem_InrD(2,4) [OF assms(1)] have "it_ProductID i = productID" by simp
  with items i show ?thesis by simp
qed

lemma AddItem_again:
  assumes "AddItem b0 orderID productID quantity status now = Inr b"
    and "items_distinct b"
  shows "AddItem b orderID productID quantity status now' =
           Inr (b\<lparr>Items := rewrite_items orderID (\<lambda>i. i\<lparr>it_AddedAt := now'\<rparr>) (Items b),
                  UpdatedAt := now'\<rparr>)"
proof -
  let ?g = "\<lambda>i. i\<lparr>it_Quantity := quantity, it_Status := status, it_AddedAt := now'\<rparr>"
  note d = AddItem_InrD [OF assms(1)]
  from assms(1) have guard: "ProductID b = productID" "Status b \<noteq> BatchStatusCompleted"
      "Status b \<noteq> BatchStatusCancelled"
    using d(2,3,4) by (auto simp: AddItem_def split: if_splits)
  from AddItem_item [OF assms(1)] obtain i where
    found: "find (\<lambda>i. it_OrderID i = orderID) (Items b) = Some i"
    and i: "it_Quantity i = quantity" "it_Status i = status"
    by blast
  from found assms(2) have only: "filter (\<lambda>i. it_OrderID i = orderID) (Items b) = [i]"
    unfolding items_distinct_def by (rule find_filter_distinct)
  have same: "?g j = j\<lparr>it_AddedAt := now'\<rparr>" if "j \<in> set (Items b)" "it_OrderID j = orderID" for j
  proof -
    from that have "j \<in> set (filter (\<lambda>i. it_OrderID i = orderID) (Items b))" by simp
    with only have "j = i" by simp
    with i show ?thesis by simp
  qed
  from d(5) obtain items where items: "update_first orderID ?g (Items b) = Some items"
    by (cases "update_first orderID ?g (Items b)") (auto simp: update_first_None HasOrder_iff)
  from update_first_rewrite [OF items] assms(2)
  have "items = rewrite_items orderID ?g (Items b)"
    by (simp add: items_distinct_def)
  also have "\<dots> = rewrite_items orderID (\<lambda>i. i\<lparr>it_AddedAt := now'\<rparr>) (Items b)"
    unfolding rewrite_items_def by (rule map_cong) (simp_all add: same)
  finally show ?thesis
    using items guard by (simp add: AddItem_def)
qed

text \<open>
  C9: in a reachable state, \<open>AddOrderToBatch\<close> called twice in succession with the same
  order id, product id, quantity and status (at any two instants, whatever the publisher
  returns). The first call returns a batch \<open>b\<close> and stores it; \<open>b\<close> holds exactly one
  item of the order, with the product id, the quantity and the status of the call, added
  at the instant of the call. The second call returns a batch \<open>b'\<close>, and the repository
  after it is the repository after the first call with \<open>b'\<close> in the place of \<open>b\<close>.
  \<open>b'\<close> is \<open>b\<close> but for \<open>UpdatedAt\<close> and for the \<open>AddedAt\<close> of the order's item, both
  now the instant of the second call: the item was rewritten in place, every other item
  is unchanged, no item was added, and \<open>TotalItems\<close> is still the number of items.
\<close>

theorem C9_add_twice:
  assumes "reachable s" and "range_order ks (repo s)"
    and "range_order ks'
           (repo (snd (AddOrderToBatch pub ks now stamp orderID productID quantity status s)))"
  shows "\<exists>b b'.
           fst (AddOrderToBatch pub ks now stamp orderID productID quantity status s) = Inr b
         \<and> repo (snd (AddOrderToBatch pub ks now stamp orderID productID quantity status s)) (ID b) = Some b
         \<and> map (\<lambda>i. (it_ProductID i, it_Quantity i, it_Status i, it_AddedAt i)) (order_items b orderID) =
             [(productID, quantity, status, now)]
         \<and> fst (AddOrderToBatch pub' ks' now' stamp' orderID productID quantity status
                  (snd (AddOrderToBatch pub ks now stamp orderID productID quantity status s))) = Inr b'
         \<and> repo (snd (AddOrderToBatch pub' ks' now' stamp' orderID productID quantity status
                  (snd (AddOrderToBatch pub ks now stamp orderID productID quantity status s)))) =
             (repo (snd (AddOrderToBatch pub ks now stamp orderID productID quantity status s)))(ID b \<mapsto> b')
         \<and> b' = b\<lparr>Items := rewrite_items orderID (\<lambda>i. i\<lparr>it_AddedAt := now'\<rparr>) (Items b),
                   UpdatedAt := now'\<rparr>
         \<and> length (Items b') = length (Items b)
         \<and> TotalItems b' = int (length (Items b')) \<and> TotalItems b' = TotalItems b"
proof -
  let ?s1 = "snd (AddOrderToBatch pub ks now stamp orderID productID quantity status s)"
  let ?start = "case FindPendingBatchForProduct ks (repo s) productID of
                    Inl e \<Rightarrow> NewBatch (generateBatchID productID stamp) productID now
                  | Inr found \<Rightarrow> found"
  from assms(1) have ok: "repo_ok (repo s)" by (rule reachable_ok)
  from AddOrderToBatch_result [of pub ks now stamp orderID productID quantity status s]
  obtain b where res1: "fst (AddOrderToBatch pub ks now stamp orderID productID quantity status s) = Inr b"
    and r1: "repo ?s1 = (repo s)(ID b \<mapsto> b)"
    and add1: "AddItem ?start orderID productID quantity status now = Inr b"
    by blast
  note d = AddItem_InrD [OF add1]
  have start: "Status ?start = BatchStatusPending"
    by (cases "FindPendingBatchForProduct ks (repo s) productID")
      (simp_all add: NewBatch_def FindPending_InrD)
  with d have b: "Status b = BatchStatusPending" "ProductID b = productID" by simp_all
  have ok1: "repo_ok (repo ?s1)" using ok assms(2) by (rule AddOrderToBatch_ok)
  have stored: "repo ?s1 (ID b) = Some b" by (simp add: r1)
  from ok1 stored have cons: "batch_consistent b"
    by (auto simp: repo_ok_def repo_invariant_def)
  have "repo_distinct (repo ?s1)"
    using reachable_distinct [OF assms(1)] by (rule AddOrderToBatch_distinct)
  with stored have dist: "items_distinct b" by (auto simp: repo_distinct_def)
  have found: "FindPendingBatchForProduct ks' (repo ?s1) productID = Inr b"
  proof (cases "FindPendingBatchForProduct ks' (repo ?s1) productID")
    case (Inl e)
    from FindPending_InlD [OF Inl assms(3) stored] b show ?thesis by simp
  next
    case (Inr c)
    from FindPending_InrD [OF Inr] obtain k where k: "repo ?s1 k = Some c"
      and c: "ProductID c = productID" "Status c = BatchStatusPending" by blast
    from ok1 have "one_pending_per_product (repo ?s1)" by (simp add: repo_ok_def repo_invariant_def)
    with k stored c b have "k = ID b"
      unfolding one_pending_per_product_def by blast
    with k stored Inr show ?thesis by simp
  qed
  let ?b' = "b\<lparr>Items := rewrite_items orderID (\<lambda>i. i\<lparr>it_AddedAt := now'\<rparr>) (Items b),
                UpdatedAt := now'\<rparr>"
  from AddItem_again [OF add1 dist, of now']
  have add2: "AddItem b orderID productID quantity status now' = Inr ?b'" .
  from AddOrderToBatch_result [of pub' ks' now' stamp' orderID productID quantity status ?s1]
  obtain c where res2: "fst (AddOrderToBatch pub' ks' now' stamp' orderID productID quantity status ?s1) = Inr c"
    and r2: "repo (snd (AddOrderToBatch pub' ks' now' stamp' orderID productID quantity status ?s1)) =
        (repo ?s1)(ID c \<mapsto> c)"
    and addc: "AddItem (case FindPendingBatchForProduct ks' (repo ?s1) productID of
                    Inl e \<Rightarrow> NewBatch (generateBatchID productID stamp') productID now'
                  | Inr found \<Rightarrow> found) orderID productID quantity status now' = Inr c"
    by blast
  from addc found add2 have c: "c = ?b'" by simp
  have len: "length (Items ?b') = length (Items b)"
    by (simp add: rewrite_items_def)
  from cons have total: "TotalItems ?b' = int (length (Items ?b'))" "TotalItems ?b' = TotalItems b"
    by (simp_all add: batch_consistent_def rewrite_items_def)
  from res1 stored AddItem_order_items [OF add1 dist cons] res2 r2 c len total show ?thesis
    by (intro exI [of _ b] exI [of _ ?b']) simp
qed

theorem C9_add_twice_witness:
  "reachable new_service
   \<and> range_order [] (repo new_service)
   \<and> range_order [''BATCH-p1-20250101000000'']
        (repo (snd (AddOrderToBatch accepting [] 1 ''20250101000000'' ''o1'' ''p1'' 2 ''allocated''
                      new_service)))
   \<and> (\<exists>b b'.
           fst (AddOrderToBatch accepting [] 1 ''20250101000000'' ''o1'' ''p1'' 2 ''allocated'' new_service) = Inr b
         \<and> repo (snd (AddOrderToBatch accepting [] 1 ''20250101000000'' ''o1'' ''p1'' 2 ''allocated'' new_service)) (ID b) = Some b
         \<and> map (\<lambda>i. (it_ProductID i, it_Quantity i, it_Status i, it_AddedAt i)) (order_items b ''o1'') =
             [(''p1'', 2, ''allocated'', 1)]
         \<and> fst (AddOrderToBatch refusing [''BATCH-p1-20250101000000''] 5 ''20250101000004'' ''o1'' ''p1'' 2 ''allocated''
                  (snd (AddOrderToBatch accepting [] 1 ''20250101000000'' ''o1'' ''p1'' 2 ''allocated'' new_service))) = Inr b'
         \<and> repo (snd (AddOrderToBatch refusing [''BATCH-p1-20250101000000''] 5 ''20250101000004'' ''o1'' ''p1'' 2 ''allocated''
                  (snd (AddOrderToBatch accepting [] 1 ''20250101000000'' ''o1'' ''p1'' 2 ''allocated'' new_service)))) =
             (repo (snd (AddOrderToBatch accepting [] 1 ''20250101000000'' ''o1'' ''p1'' 2 ''allocated'' new_service)))(ID b \<mapsto> b')
         \<and> b' = b\<lparr>Items := rewrite_items ''o1'' (\<lambda>i. i\<lparr>it_AddedAt := 5\<rparr>) (Items b), UpdatedAt := 5\<rparr>
         \<and> length (Items b') = length (Items b)
         \<and> TotalItems b' = int (length (Items b')) \<and> TotalItems b' = TotalItems b)
   \<and> repo (snd (AddOrderToBatch refusing [''BATCH-p1-20250101000000''] 5 ''20250101000004'' ''o1'' ''p1'' 2 ''allocated''
              (snd (AddOrderToBatch accepting [] 1 ''20250101000000'' ''o1'' ''p1'' 2 ''allocated'' new_service)))) =
       Map.empty(''BATCH-p1-20250101000000'' \<mapsto>
         \<lparr>ID = ''BATCH-p1-20250101000000'', ProductID = ''p1'', Status = BatchStatusPending,
          Items = [\<lparr>it_OrderID = ''o1'', it_ProductID = ''p1'', it_Quantity = 2,
                    it_Status = ''allocated'', it_AddedAt = 5, it_ProcessedAt = None\<rparr>],
          TotalItems = 1, CreatedAt = 1, UpdatedAt = 5, ProcessedAt = None\<rparr>)"
proof -
  let ?first = "AddOrderToBatch accepting [] 1 ''20250101000000'' ''o1'' ''p1'' 2 ''allocated'' new_service"
  let ?second = "AddOrderToBatch refusing [''BATCH-p1-20250101000000''] 5 ''20250101000004'' ''o1''
      ''p1'' 2 ''allocated'' (snd ?first)"
  let ?b = "\<lparr>ID = ''BATCH-p1-20250101000000'', ProductID = ''p1'', Status = BatchStatusPending,
          Items = [\<lparr>it_OrderID = ''o1'', it_ProductID = ''p1'', it_Quantity = 2,
                    it_Status = ''allocated'', it_AddedAt = 1, it_ProcessedAt = None\<rparr>],
          TotalItems = 1, CreatedAt = 1, UpdatedAt = 1, ProcessedAt = None\<rparr>"
  have r1: "range_order [] (repo new_service)"
    by (simp add: range_order_def new_service_def)
  have first: "fst ?first = Inr ?b" and repo1: "repo (snd ?first) = Map.empty(''BATCH-p1-20250101000000'' \<mapsto> ?b)"
    by (simp_all add: eval_service)
  have r2: "range_order [''BATCH-p1-20250101000000''] (repo (snd ?first))"
    unfolding repo1 by (simp add: range_order_def)
  note twice = C9_add_twice [OF reachable.start r1 r2, of refusing 5 "''20250101000004''"]
  from twice obtain b b' where fb: "fst ?first = Inr b"
    and rb: "repo (snd ?second) = (repo (snd ?first))(ID b \<mapsto> b')"
    and bb: "b' = b\<lparr>Items := rewrite_items ''o1'' (\<lambda>i. i\<lparr>it_AddedAt := 5\<rparr>) (Items b), UpdatedAt := 5\<rparr>"
    by blast
  from first fb have b: "b = ?b" by simp
  have after: "repo (snd ?second) =
       Map.empty(''BATCH-p1-20250101000000'' \<mapsto>
         \<lparr>ID = ''BATCH-p1-20250101000000'', ProductID = ''p1'', Status = BatchStatusPending,
          Items = [\<lparr>it_OrderID = ''o1'', it_ProductID = ''p1'', it_Quantity = 2,
                    it_Status = ''allocated'', it_AddedAt = 5, it_ProcessedAt = None\<rparr>],
          TotalItems = 1, CreatedAt = 1, UpdatedAt = 5, ProcessedAt = None\<rparr>)"
    unfolding rb bb repo1 b by (simp add: rewrite_items_def)
  from twice reachable.start r1 r2 after show ?thesis
    by blast
qed

subsection \<open>Order events in the batch service\<close>





























lemmas eval_handlers =
  HandleOrderEvent_def IsWarehouseRelevant_def GetWarehouseAction_def processDamage_def
  update_or_add_def processReturn_def GetBatchByOrderID_def




lemma repo_twice_store:
  "repo twice_store =
     Map.empty(''BATCH-p1-20250101000000'' \<mapsto> damaged_example,
       ''BATCH-p1-20250101000009'' \<mapsto>
       \<lparr>ID = ''BATCH-p1-20250101000009'', ProductID = ''p1'', Status = BatchStatusPending,
        Items = [\<lparr>it_OrderID = ''o1'', it_ProductID = ''p1'', it_Quantity = 2,
                  it_Status = ''allocated'', it_AddedAt = 3, it_ProcessedAt = None\<rparr>],
        TotalItems = 1, CreatedAt = 3, UpdatedAt = 3, ProcessedAt = None\<rparr>)"
  by (simp add: twice_store_def repo_damaged_store damaged_example_def exec_def
      AddOrderToBatch_def FindPendingBatchForProduct_def range_batches_def NewBatch_def
      generateBatchID_def AddItem_def Save_def GetItemByOrderID_def publish_def Let_def)



text \<open>
  An order can be in two batches: \<open>o1\<close> is in the damaged batch of the examples and,
  added again, in a new pending batch. The major damage event for \<open>o1\<close> is handled with
  the first loop coming to the pending batch first and the second loop to the damaged
  one: the status of the item is set in the pending batch, which stays pending, and the
  batch marked damaged is the other one.
\<close>

lemma major_damage_in_two_batches:
  "map_sum id (\<lambda>b. (Status b, map (\<lambda>i. (it_OrderID i, it_Status i)) (Items b)))
     (FindByID (repo (snd (HandleOrderEvent accepting
         [''BATCH-p1-20250101000009'', ''BATCH-p1-20250101000000'']
         [''BATCH-p1-20250101000000'', ''BATCH-p1-20250101000009''] 5 ''20250101000012''
         (damage_event_example ''damage_detected_major'') twice_store))) ''BATCH-p1-20250101000009'') =
     Inr (''pending'', [(''o1'', ''damage_major'')])
   \<and> map_sum id (\<lambda>b. (Status b, map (\<lambda>i. (it_OrderID i, it_Status i)) (Items b)))
     (FindByID (repo (snd (HandleOrderEvent accepting
         [''BATCH-p1-20250101000009'', ''BATCH-p1-20250101000000'']
         [''BATCH-p1-20250101000000'', ''BATCH-p1-20250101000009''] 5 ''20250101000012''
         (damage_event_example ''damage_detected_major'') twice_store))) ''BATCH-p1-20250101000000'') =
     Inr (''damaged'', [(''o1'', ''damage_major'')])"
  by (simp add: repo_twice_store damaged_example_def damage_event_example_def eval_handlers
      UpdateOrderStatus_def UpdateItemStatus_def FindByOrderID_def FindByID_def Save_def
      range_batches_def GetItemByOrderID_def HasOrder_def publish_def Let_def
      MarkBatchAsDamaged_def transition_def MarkAsDamaged_def
      BatchStatusPending_def BatchStatusDamaged_def)




subsection \<open>Returned orders\<close>

text \<open>
  When the batch that holds the returned order is not pending, and the id generated for a
  new batch is not the id of that batch, handling the return leaves the order's item,
  with status "returned", in its batch and the item of the return in another batch,
  which is pending.
\<close>

lemma processReturn_separate_batches:
  assumes "reachable s" and "range_order ks (repo s)" and "range_order ks' (repo s)"
    and "FindByOrderID ks (repo s) (oe_OrderID event) = Inr b"
    and "Status b \<noteq> BatchStatusPending"
    and "generateBatchID (ord_ProductID (oe_Order event)) stamp \<noteq> ID b"
  shows "\<exists>b1 b2. fst (processReturn pub ks ks' now stamp event s) = None
           \<and> repo (snd (processReturn pub ks ks' now stamp event s)) (ID b) = Some b1
           \<and> item_status b1 (oe_OrderID event) = Some ''returned''
           \<and> repo (snd (processReturn pub ks ks' now stamp event s)) (ID b2) = Some b2
           \<and> item_status b2 (oe_OrderID event @ ''-return'') = Some ''returned''
           \<and> Status b2 = BatchStatusPending \<and> ID b2 \<noteq> ID b"
proof -
  let ?o = "oe_OrderID event" and ?p = "ord_ProductID (oe_Order event)"
    and ?q = "ord_Quantity (oe_Order event)"
  let ?s1 = "snd (UpdateOrderStatus pub ks now ?o ''returned'' s)"
  let ?add = "AddOrderToBatch pub ks' now stamp (?o @ ''-return'') ?p ?q ''returned'' ?s1"
  from reachable_ok [OF assms(1)] have ok: "repo_ok (repo s)" .
  then have keys: "keys_ok (repo s)" by (simp add: repo_ok_def)
  from UpdateOrderStatus_found [OF keys assms(4), of "''returned''" now pub] obtain b1 where
    upd: "UpdateItemStatus b ?o ''returned'' now = Inr b1"
    and res1: "fst (UpdateOrderStatus pub ks now ?o ''returned'' s) = None"
    and r1: "repo ?s1 = (repo s)(ID b \<mapsto> b1)"
    and b1: "ID b1 = ID b" "item_status b1 ?o = Some ''returned''"
    by blast
  from UpdateItemStatus_InrD(3) [OF upd] assms(5) have st1: "Status b1 \<noteq> BatchStatusPending"
    by simp
  have ok1: "repo_ok (repo ?s1)" using ok by (rule UpdateOrderStatus_ok)
  then have keys1: "keys_ok (repo ?s1)" by (simp add: repo_ok_def)
  let ?start = "case FindPendingBatchForProduct ks' (repo ?s1) ?p of
                    Inl e \<Rightarrow> NewBatch (generateBatchID ?p stamp) ?p now
                  | Inr found \<Rightarrow> found"
  from AddOrderToBatch_result [of pub ks' now stamp "?o @ ''-return''" ?p ?q "''returned''" ?s1]
  obtain b2 where res2: "fst ?add = Inr b2" and r2: "repo (snd ?add) = (repo ?s1)(ID b2 \<mapsto> b2)"
    and add: "AddItem ?start (?o @ ''-return'') ?p ?q ''returned'' now = Inr b2" by blast
  note d = AddItem_InrD [OF add]
  have start: "Status ?start = BatchStatusPending \<and> ID ?start \<noteq> ID b"
  proof (cases "FindPendingBatchForProduct ks' (repo ?s1) ?p")
    case (Inl e)
    with assms(6) show ?thesis by (simp add: NewBatch_def)
  next
    case (Inr found)
    from FindPending_InrD [OF Inr] obtain k where k: "repo ?s1 k = Some found"
      and pending: "Status found = BatchStatusPending" by blast
    from k keys1 have "repo ?s1 (ID found) = Some found" by (auto simp: keys_ok_def)
    with r1 st1 pending have "ID found \<noteq> ID b" by auto
    with Inr pending show ?thesis by simp
  qed
  with d have b2: "Status b2 = BatchStatusPending" "ID b2 \<noteq> ID b" by simp_all
  have run: "processReturn pub ks ks' now stamp event s = (None, snd ?add)"
  proof -
    from res1 obtain s1 where u: "UpdateOrderStatus pub ks now ?o ''returned'' s = (None, s1)"
      by (cases "UpdateOrderStatus pub ks now ?o ''returned'' s") simp
    from res2 u obtain s2 where
      a: "AddOrderToBatch pub ks' now stamp (?o @ ''-return'') ?p ?q ''returned'' s1 = (Inr b2, s2)"
      by (cases "AddOrderToBatch pub ks' now stamp (?o @ ''-return'') ?p ?q ''returned'' s1") simp
    from u a have "snd ?add = s2" by simp
    moreover from u a have "processReturn pub ks ks' now stamp event s = (None, s2)"
      by (simp add: processReturn_def)
    ultimately show ?thesis by simp
  qed
  have "repo (snd ?add) (ID b) = Some b1"
    using r2 r1 b2(2) by simp
  moreover have "repo (snd ?add) (ID b2) = Some b2"
    using r2 by simp
  ultimately show ?thesis
    using run b1(2) b2 AddItem_item_status [OF add]
    by (intro exI [of _ b1] exI [of _ b2]) simp
qed

text \<open>
  C10 says that the returned order's item and the item of the return end up in two
  batches when the order's batch is no longer pending. \<open>generateBatchID\<close>, documented
  as giving a unique id, gives the id of the second in which it is called. In the
  example the order \<open>o1\<close> of product \<open>p1\<close> sits in a damaged batch made in the second
  \<open>20250101000000\<close>; the return of \<open>o1\<close> is handled in that same second. The handler
  reports no error; afterwards the repository holds one batch, under the old id, with
  the item of the return as its only item, and no batch holds \<open>o1\<close>.
\<close>

theorem C10_return_overwrites_batch:
  "FindByID (repo damaged_store) ''BATCH-p1-20250101000000'' = Inr damaged_example
   \<and> fst (HandleOrderEvent accepting [''BATCH-p1-20250101000000''] [''BATCH-p1-20250101000000''] 3
          ''20250101000000'' returned_event damaged_store) = None
   \<and> dom (repo (snd (HandleOrderEvent accepting [''BATCH-p1-20250101000000'']
          [''BATCH-p1-20250101000000''] 3 ''20250101000000'' returned_event damaged_store))) =
       {''BATCH-p1-20250101000000''}
   \<and> map_sum id (\<lambda>b. (Status b, map (\<lambda>i. (it_OrderID i, it_Status i)) (Items b)))
        (FindByID (repo (snd (HandleOrderEvent accepting [''BATCH-p1-20250101000000'']
          [''BATCH-p1-20250101000000''] 3 ''20250101000000'' returned_event damaged_store)))
          ''BATCH-p1-20250101000000'') =
        Inr (''pending'', [(''o1-return'', ''returned'')])
   \<and> FindByOrderID [''BATCH-p1-20250101000000'']
        (repo (snd (HandleOrderEvent accepting [''BATCH-p1-20250101000000'']
          [''BATCH-p1-20250101000000''] 3 ''20250101000000'' returned_event damaged_store))) ''o1'' =
        Inl ''no batch found containing order o1''"
  by (simp add: repo_damaged_store damaged_example_def returned_event_def eval_handlers
      UpdateOrderStatus_def AddOrderToBatch_def FindPendingBatchForProduct_def FindByOrderID_def
      FindByID_def Save_def range_batches_def AddItem_def UpdateItemStatus_def
      NewBatch_def generateBatchID_def GetItemByOrderID_def HasOrder_def publish_def Let_def
      BatchStatusPending_def BatchStatusDamaged_def BatchStatusCompleted_def BatchStatusCancelled_def)


end
